theory Spec2Isabelle
  imports Main
begin

section \<open>Python values: text, bytes, exceptions\<close>

text \<open>
  A Python \<open>str\<close> is a sequence of Unicode code points, so it is modelled as a list of
  natural numbers; \<open>bytes\<close> is a list of 8-bit characters, which is what \<open>string\<close> is.
  \<open>u\<close> turns an ASCII literal into the \<open>str\<close> with the same characters.
\<close>

type_synonym ustr = "nat list"

definition u :: "string \<Rightarrow> ustr" where
  "u s = map of_char s"

text \<open>The three non-ASCII characters of the reference syntax in \<open>tools.py\<close>.\<close>

definition laquo :: nat where "laquo = 171"    \<comment> \<open>U+00AB, opens a reference\<close>
definition raquo :: nat where "raquo = 187"    \<comment> \<open>U+00BB, closes a reference\<close>
definition rsaquo :: nat where "rsaquo = 8250" \<comment> \<open>U+203A\<close>

text \<open>\<open>str(n)\<close> and \<open>f"{n}"\<close> for an \<open>int\<close>: the decimal digits, with a minus sign below zero.\<close>

fun digit_chars :: "nat \<Rightarrow> ustr" where
  "digit_chars n = (if n < 10 then [48 + n] else digit_chars (n div 10) @ [48 + n mod 10])"

declare digit_chars.simps [simp del]

definition str_int :: "int \<Rightarrow> ustr" where
  "str_int i = (if i < 0 then 45 # digit_chars (nat (- i)) else digit_chars (nat i))"

text \<open>\<open>s.rstrip(chars)\<close>: drop every trailing character that is one of \<open>chars\<close>.\<close>

definition rstrip_chars :: "ustr \<Rightarrow> ustr \<Rightarrow> ustr" where
  "rstrip_chars cs s = rev (dropWhile (\<lambda>c. c \<in> set cs) (rev s))"

section \<open>The web server (\<open>web_server.py\<close>)\<close>

text \<open>
  \<open>ArtifactWebServer\<close> keeps the hosting directory, the port, the bind host and the
  handle of its background thread. Threads are named by a number; which of them are alive
  is part of the process state below.
\<close>

record web_server =
  host_directory :: ustr
  port :: int
  host :: ustr
  server_thread :: "nat option"

subsection \<open>\<open>get_url\<close>\<close>

text \<open>
  \<open>if base_url:\<close> tests truthiness: the branch is taken for a \<open>str\<close> that is neither
  \<open>None\<close> nor empty.
\<close>

definition get_url :: "web_server \<Rightarrow> ustr \<Rightarrow> ustr option \<Rightarrow> ustr" where
  "get_url self filename base_url =
     (case base_url of
        Some b \<Rightarrow>
          (if b \<noteq> [] then rstrip_chars (u ''/'') b @ u ''/'' @ filename
           else u ''http://'' @ host self @ u '':'' @ str_int (port self) @ u ''/'' @ filename)
      | None \<Rightarrow> u ''http://'' @ host self @ u '':'' @ str_int (port self) @ u ''/'' @ filename)"

text \<open>
  What "\<open>b\<close> with its trailing slashes stripped" means, said without \<open>rstrip\<close>: \<open>r\<close> is
  \<open>b\<close> without a block of slashes at its end, and \<open>r\<close> does not end in a slash.
\<close>

definition slashes_stripped :: "ustr \<Rightarrow> ustr \<Rightarrow> bool" where
  "slashes_stripped b r =
     ((\<exists>k. b = r @ replicate k 47) \<and> (r = [] \<or> last r \<noteq> 47))"

definition example_server :: web_server where
  "example_server =
     \<lparr>host_directory = u ''/srv/hosted'', port = 8080, host = u ''127.0.0.1'',
      server_thread = None\<rparr>"

subsection \<open>The size shown in the directory listing (\<open>index\<close>)\<close>

text \<open>
  For every regular file the listing computes
  \<^verbatim>\<open>size_mb = size_bytes / (1024 * 1024)\<close> and
  \<^verbatim>\<open>f"{size_mb:.2f} MB" if size_mb >= 1 else f"{size_bytes / 1024:.2f} KB"\<close>.
  \<open>size_bytes\<close> is \<open>st_size\<close>, a non-negative integer. Python's \<open>/\<close> on integers gives
  the IEEE double nearest to the exact quotient (ties to even); dividing by a power of two
  only changes the exponent, so the quotient by \<open>2 ^ k\<close> is the double nearest to the integer,
  over \<open>2 ^ k\<close>. Such a double is kept exactly, as the pair of its numerator and \<open>k\<close>.
  \<open>:.2f\<close> prints the decimal with two places nearest to the exact value of the double, ties
  to even.
\<close>

fun bit_length :: "nat \<Rightarrow> nat" where
  "bit_length n = (if n = 0 then 0 else Suc (bit_length (n div 2)))"

declare bit_length.simps [simp del]

definition round_half_even :: "nat \<Rightarrow> nat \<Rightarrow> nat" where
  \<comment> \<open>the integer nearest to \<open>a / b\<close>, ties to the even one\<close>
  "round_half_even a b =
     (let q = a div b; r = a mod b
      in if 2 * r < b then q else if b < 2 * r then q + 1 else if even q then q else q + 1)"

definition to_double :: "nat \<Rightarrow> nat" where
  \<comment> \<open>the double nearest to the integer \<open>n\<close>: 53 significant bits\<close>
  "to_double n = (let e = bit_length n - 53 in round_half_even n (2 ^ e) * 2 ^ e)"

type_synonym double = "nat \<times> nat"  \<comment> \<open>\<open>(m, k)\<close> is the double \<open>m / 2 ^ k\<close>\<close>

definition true_div_pow2 :: "nat \<Rightarrow> nat \<Rightarrow> double" where
  "true_div_pow2 n k = (to_double n, k)"

definition ge_one :: "double \<Rightarrow> bool" where
  "ge_one x = (case x of (m, k) \<Rightarrow> 2 ^ k \<le> m)"

definition two_decimals :: "nat \<Rightarrow> ustr" where
  \<comment> \<open>\<open>c\<close> hundredths, written with two decimals\<close>
  "two_decimals c = digit_chars (c div 100) @ [46, 48 + (c mod 100) div 10, 48 + c mod 10]"

definition format_2f :: "double \<Rightarrow> ustr" where
  "format_2f x = (case x of (m, k) \<Rightarrow> two_decimals (round_half_even (100 * m) (2 ^ k)))"

definition size_display :: "nat \<Rightarrow> ustr" where
  "size_display size_bytes =
     (let size_mb = true_div_pow2 size_bytes 20
      in if ge_one size_mb then format_2f size_mb @ u '' MB''
         else format_2f (true_div_pow2 size_bytes 10) @ u '' KB'')"

subsection \<open>\<open>start\<close>\<close>

text \<open>
  The process state that \<open>start\<close> touches: for every thread created so far whether it is
  alive, whether the interpreter can still start a thread, and the log records written.
  A thread is alive from \<open>Thread.start()\<close> until its \<open>run\<close> returns; here the thread runs
  the listener (\<open>app.run\<close>), so an alive server thread is a running listener.
\<close>

datatype exn =
    FileNotFoundError ustr
  | ValueError ustr
  | RuntimeError ustr
  | Exception ustr  \<comment> \<open>any other subclass of \<open>Exception\<close>, with its \<open>str(e)\<close>\<close>

fun str_exn :: "exn \<Rightarrow> ustr" where
  "str_exn (FileNotFoundError m) = m"
| "str_exn (ValueError m) = m"
| "str_exn (RuntimeError m) = m"
| "str_exn (Exception m) = m"

datatype log_level = INFO | WARNING

record process =
  threads :: "bool list"
  can_start_thread :: bool
  log :: "(log_level \<times> ustr) list"

definition is_alive :: "process \<Rightarrow> nat \<Rightarrow> bool" where
  "is_alive p t = (t < length (threads p) \<and> threads p ! t)"

definition alive_threads :: "process \<Rightarrow> nat" where
  "alive_threads p = length (filter (\<lambda>a. a) (threads p))"

definition spawn_server :: "web_server \<Rightarrow> process \<Rightarrow> exn + web_server \<times> process" where
  "spawn_server self p =
     (if can_start_thread p
      then Inr (self\<lparr>server_thread := Some (length (threads p))\<rparr>,
                p\<lparr>threads := threads p @ [True],
                  log := log p @ [(INFO, u ''[ArtifactWebServer] Server started on http://''
                                       @ host self @ u '':'' @ str_int (port self))]\<rparr>)
      else Inl (RuntimeError (u ''can't start new thread'')))"

definition start :: "web_server \<Rightarrow> process \<Rightarrow> exn + web_server \<times> process" where
  "start self p =
     (case server_thread self of
        Some t \<Rightarrow>
          (if is_alive p t
           then Inr (self, p\<lparr>log := log p
                        @ [(WARNING, u ''[ArtifactWebServer] Server is already running'')]\<rparr>)
           else spawn_server self p)
      | None \<Rightarrow> spawn_server self p)"

text \<open>A process in which no thread has been created yet, for the examples.\<close>

definition fresh_process :: process where
  "fresh_process = \<lparr>threads = [], can_start_thread = True, log = []\<rparr>"

section \<open>Hosting artifacts (\<open>tools.py\<close>)\<close>

subsection \<open>Text helpers of the Python library\<close>

text \<open>
  \<open>str.strip()\<close> and the regular expression class \<open>\s\<close> use the same test on a code
  point, \<open>Py_UNICODE_ISSPACE\<close>.
\<close>

definition is_space :: "nat \<Rightarrow> bool" where
  "is_space c =
     ((9 \<le> c \<and> c \<le> 13) \<or> (28 \<le> c \<and> c \<le> 32) \<or> c = 133 \<or> c = 160 \<or> c = 5760
      \<or> (8192 \<le> c \<and> c \<le> 8202) \<or> c = 8232 \<or> c = 8233 \<or> c = 8239 \<or> c = 8287
      \<or> c = 12288)"

definition strip :: "ustr \<Rightarrow> ustr" where
  "strip s = rev (dropWhile is_space (rev (dropWhile is_space s)))"

definition startswith :: "ustr \<Rightarrow> ustr \<Rightarrow> bool" where
  "startswith s p = (take (length p) s = p)"

definition endswith :: "ustr \<Rightarrow> ustr \<Rightarrow> bool" where
  "endswith s p = (length p \<le> length s \<and> drop (length s - length p) s = p)"

text \<open>
  \<open>str.lower()\<close>, on the letters that matter for the test \<open>.lower().endswith(('.html',
  '.htm'))\<close>: the ASCII capitals. No other code point has a lower-case form that contains one
  of the characters \<open>. h t m l\<close>.
\<close>

definition lower :: "ustr \<Rightarrow> ustr" where
  "lower s = map (\<lambda>c. if 65 \<le> c \<and> c \<le> 90 then c + 32 else c) s"

text \<open>
  \<open>s.rsplit(":", 1)\<close>: split at the last colon. The result is the part before it and, when
  there is a colon, the part after it (\<open>parts[1] if len(parts) > 1 else None\<close>).
\<close>

definition rsplit_colon :: "ustr \<Rightarrow> ustr \<times> ustr option" where
  "rsplit_colon s =
     (if 58 \<in> set s
      then (rev (tl (dropWhile (\<lambda>c. c \<noteq> 58) (rev s))),
            Some (rev (takeWhile (\<lambda>c. c \<noteq> 58) (rev s))))
      else (s, None))"

text \<open>
  \<open>Path(p).suffix\<close> of \<open>pathlib\<close> on a POSIX system: \<open>name\<close> is the last component of the
  path that is neither empty nor \<open>.\<close>, and the suffix starts at the last dot of the name,
  unless that dot is the first or the last character of the name.
\<close>

fun split_slash :: "ustr \<Rightarrow> ustr list" where
  "split_slash [] = [[]]"
| "split_slash (c # cs) =
     (case split_slash cs of
        [] \<Rightarrow> [[c]]
      | p # ps \<Rightarrow> if c = 47 then [] # p # ps else (c # p) # ps)"

definition path_name :: "ustr \<Rightarrow> ustr" where
  "path_name p =
     (case rev (filter (\<lambda>part. part \<noteq> [] \<and> part \<noteq> [46]) (split_slash p)) of
        [] \<Rightarrow> []
      | n # _ \<Rightarrow> n)"

definition rfind_dot :: "ustr \<Rightarrow> nat option" where
  "rfind_dot s =
     (if 46 \<in> set s then Some (length s - 1 - length (takeWhile (\<lambda>c. c \<noteq> 46) (rev s)))
      else None)"

definition path_suffix :: "ustr \<Rightarrow> ustr" where
  "path_suffix p =
     (let name = path_name p
      in case rfind_dot name of
           None \<Rightarrow> []
         | Some i \<Rightarrow> if 0 < i \<and> i + 1 < length name then drop i name else [])"

text \<open>
  \<open>list(dict.fromkeys(xs))\<close>: the keys of a dictionary filled in the order of \<open>xs\<close>; a key
  that is already there keeps its place.
\<close>

definition fromkeys :: "'a list \<Rightarrow> 'a list" where
  "fromkeys xs = foldl (\<lambda>keys x. if x \<in> set keys then keys else keys @ [x]) [] xs"

text \<open>
  The specification's words for the same list (first-occurrence order, repetitions
  removed): the element at position \<open>i\<close> is kept when it does not occur before position
  \<open>i\<close>.
\<close>

definition first_occurrences :: "'a list \<Rightarrow> 'a list" where
  "first_occurrences xs =
     map (\<lambda>i. xs ! i) (filter (\<lambda>i. xs ! i \<notin> set (take i xs)) [0..<length xs])"

subsection \<open>The two regular expressions\<close>

text \<open>
  Both patterns start with the literal \<open>\<guillemotleft>artifact_content:\<close> and a group of one or more
  characters other than U+203A and \<open>\<guillemotright>\<close>.
  The group is greedy: it first takes every character up to the next U+203A or \<open>\<guillemotright>\<close> (or the
  end of the text), and gives characters back one at a time, down to one character, until
  the rest of the pattern matches. \<open>backtrack_group rest r g\<close> tries the group lengths
  \<open>g, g - 1, ..., 1\<close> on the text \<open>r\<close> and returns the first length at which \<open>rest\<close>
  matches, with the number of characters \<open>rest\<close> matched.
\<close>

definition marker :: ustr where
  "marker = laquo # u ''artifact_content:''"

fun backtrack_group :: "(ustr \<Rightarrow> nat option) \<Rightarrow> ustr \<Rightarrow> nat \<Rightarrow> (nat \<times> nat) option" where
  "backtrack_group rest r 0 = None"
| "backtrack_group rest r (Suc g) =
     (case rest (drop (Suc g) r) of
        Some n \<Rightarrow> Some (Suc g, n)
      | None \<Rightarrow> backtrack_group rest r g)"

text \<open>
  \<open>\s*>>>\<close>: \<open>\s*\<close> takes all the white space there is; giving some back cannot help,
  since \<open>>\<close> is not white space.
\<close>

definition match_arrows :: "ustr \<Rightarrow> nat option" where
  "match_arrows r =
     (let ws = length (takeWhile is_space r)
      in if startswith (drop ws r) (u ''>>>'') then Some (ws + 3) else None)"

text \<open>
  \<open>\s*>>>[^\<guillemotright>]*\<guillemotright>\<close>: after the arrows, everything up to and including the next \<open>\<guillemotright>\<close>; there
  is no match when no \<open>\<guillemotright>\<close> follows.
\<close>

definition match_arrows_close :: "ustr \<Rightarrow> nat option" where
  "match_arrows_close r =
     (case match_arrows r of
        None \<Rightarrow> None
      | Some n \<Rightarrow>
          (let t = drop n r
           in if raquo \<in> set t then Some (n + length (takeWhile (\<lambda>c. c \<noteq> raquo) t) + 1)
              else None))"

text \<open>
  A match of a pattern at the start of \<open>s\<close>: the text of group 1 and the length of the
  whole match.
\<close>

definition match_at :: "(ustr \<Rightarrow> nat option) \<Rightarrow> ustr \<Rightarrow> (ustr \<times> nat) option" where
  "match_at rest s =
     (if startswith s marker
      then (let r = drop (length marker) s;
                run = takeWhile (\<lambda>c. c \<noteq> rsaquo \<and> c \<noteq> raquo) r
            in case backtrack_group rest r (length run) of
                 None \<Rightarrow> None
               | Some (g, n) \<Rightarrow> Some (take g r, length marker + g + n))
      else None)"

text \<open>
  \<open>re.findall\<close> and \<open>re.sub\<close> scan from the left; after a match they go on behind it.
  A match of these patterns is never empty (it holds the marker), so \<open>n - 1\<close> characters
  are dropped behind the first one.
\<close>

fun findall :: "(ustr \<Rightarrow> (ustr \<times> nat) option) \<Rightarrow> ustr \<Rightarrow> ustr list" where
  "findall m [] = []"
| "findall m (c # cs) =
     (case m (c # cs) of
        Some (g, n) \<Rightarrow> g # findall m (drop (n - 1) cs)
      | None \<Rightarrow> findall m cs)"

fun sub :: "(ustr \<Rightarrow> (ustr \<times> nat) option) \<Rightarrow> (ustr \<Rightarrow> ustr) \<Rightarrow> ustr \<Rightarrow> ustr" where
  "sub m repl [] = []"
| "sub m repl (c # cs) =
     (case m (c # cs) of
        Some (g, n) \<Rightarrow> repl g @ sub m repl (drop (n - 1) cs)
      | None \<Rightarrow> c # sub m repl cs)"

subsection \<open>\<open>_extract_artifact_references\<close> and \<open>_replace_artifact_references\<close>\<close>

definition extract_artifact_references :: "ustr \<Rightarrow> ustr list" where
  "extract_artifact_references html_content =
     (let matches = findall (match_at match_arrows) html_content;
          filenames = map strip matches
      in fromkeys filenames)"

text \<open>\<open>filename_map\<close> is a dictionary; it is kept as the list of its items.\<close>

definition replace_reference :: "(ustr \<times> ustr) list \<Rightarrow> ustr \<Rightarrow> ustr" where
  "replace_reference filename_map group1 =
     (let original_filename = strip group1
      in case map_of filename_map original_filename of
           Some hosted_filename \<Rightarrow> hosted_filename
         | None \<Rightarrow> original_filename)"

definition replace_artifact_references :: "ustr \<Rightarrow> (ustr \<times> ustr) list \<Rightarrow> ustr" where
  "replace_artifact_references html_content filename_map =
     sub (match_at match_arrows_close) (replace_reference filename_map) html_content"

subsection \<open>Documents made of text and reference tokens\<close>

text \<open>
  To speak about the tokens of a page, a page is described as a sequence of pieces: plain
  text, and reference tokens \<open>\<guillemotleft>artifact_content:name>>>trailer\<guillemotright>\<close>. \<open>name\<close> is everything
  between the colon and the arrows (the filename, with the white space around it),
  \<open>trailer\<close> is everything between the arrows and the closing mark. A piece is well formed
  when a text holds no opening mark, a name is not empty and holds no closing mark (neither
  U+203A nor \<open>\<guillemotright>\<close>), and a trailer holds no \<open>\<guillemotright>\<close> and no \<open>>\<close>.
  \<open>rewritten f\<close> is the page with every token replaced by \<open>f\<close> of its name.
\<close>

datatype piece = Text ustr | Ref ustr ustr

definition token :: "ustr \<Rightarrow> ustr \<Rightarrow> ustr" where
  "token name trailer = marker @ name @ u ''>>>'' @ trailer @ [raquo]"

fun render :: "piece list \<Rightarrow> ustr" where
  "render [] = []"
| "render (Text t # ps) = t @ render ps"
| "render (Ref name trailer # ps) = token name trailer @ render ps"

fun well_formed :: "piece \<Rightarrow> bool" where
  "well_formed (Text t) = (laquo \<notin> set t)"
| "well_formed (Ref name trailer) =
     (name \<noteq> [] \<and> rsaquo \<notin> set name \<and> raquo \<notin> set name
      \<and> raquo \<notin> set trailer \<and> 62 \<notin> set trailer)"

fun names :: "piece list \<Rightarrow> ustr list" where
  "names [] = []"
| "names (Text t # ps) = names ps"
| "names (Ref name trailer # ps) = name # names ps"

fun rewritten :: "(ustr \<Rightarrow> ustr) \<Rightarrow> piece list \<Rightarrow> ustr" where
  "rewritten f [] = []"
| "rewritten f (Text t # ps) = t @ rewritten f ps"
| "rewritten f (Ref name trailer # ps) = f name @ rewritten f ps"

subsection \<open>UTF-8\<close>

text \<open>
  \<open>bytes.decode('utf-8')\<close> is strict: it raises \<open>UnicodeDecodeError\<close> on a byte that
  cannot start a character, on a missing or wrong continuation byte, on an overlong form,
  on a surrogate and on a code point above U+10FFFF. \<open>None\<close> stands for that exception.
\<close>

definition cont :: "nat \<Rightarrow> bool" where
  "cont b = (128 \<le> b \<and> b < 192)"

fun utf8_decode :: "nat list \<Rightarrow> ustr option" where
  "utf8_decode [] = Some []"
| "utf8_decode (b # bs) =
     (if b < 128 then map_option (Cons b) (utf8_decode bs)
      else if 194 \<le> b \<and> b < 224 then
        (case bs of
           c1 # r \<Rightarrow>
             if cont c1 then map_option (Cons ((b - 192) * 64 + (c1 - 128))) (utf8_decode r)
             else None
         | _ \<Rightarrow> None)
      else if 224 \<le> b \<and> b < 240 then
        (case bs of
           c1 # c2 # r \<Rightarrow>
             if cont c1 \<and> cont c2 \<and> (if b = 224 then 160 \<le> c1 else True)
                \<and> (if b = 237 then c1 < 160 else True)
             then map_option (Cons ((b - 224) * 4096 + (c1 - 128) * 64 + (c2 - 128)))
                    (utf8_decode r)
             else None
         | _ \<Rightarrow> None)
      else if 240 \<le> b \<and> b < 245 then
        (case bs of
           c1 # c2 # c3 # r \<Rightarrow>
             if cont c1 \<and> cont c2 \<and> cont c3 \<and> (if b = 240 then 144 \<le> c1 else True)
                \<and> (if b = 244 then c1 < 144 else True)
             then map_option
                    (Cons ((b - 240) * 262144 + (c1 - 128) * 4096 + (c2 - 128) * 64 + (c3 - 128)))
                    (utf8_decode r)
             else None
         | _ \<Rightarrow> None)
      else None)"

definition decode :: "string \<Rightarrow> ustr option" where
  "decode bs = utf8_decode (map of_char bs)"

text \<open>
  \<open>str.encode('utf-8')\<close> raises \<open>UnicodeEncodeError\<close> on a surrogate; a \<open>str\<close> holds no
  code point above U+10FFFF.
\<close>

definition utf8_char :: "nat \<Rightarrow> nat list option" where
  "utf8_char c =
     (if c < 128 then Some [c]
      else if c < 2048 then Some [192 + c div 64, 128 + c mod 64]
      else if 55296 \<le> c \<and> c < 57344 then None
      else if c < 65536 then Some [224 + c div 4096, 128 + (c div 64) mod 64, 128 + c mod 64]
      else if c < 1114112 then
        Some [240 + c div 262144, 128 + (c div 4096) mod 64, 128 + (c div 64) mod 64,
              128 + c mod 64]
      else None)"

fun encode :: "ustr \<Rightarrow> string option" where
  "encode [] = Some []"
| "encode (c # cs) =
     (case utf8_char c of
        None \<Rightarrow> None
      | Some bs \<Rightarrow> map_option (\<lambda>r. map char_of bs @ r) (encode cs))"

subsection \<open>The artifact service, the execution context and the hosting directory\<close>

text \<open>
  The artifact service belongs to the host framework. Its two methods are taken as they
  answer: a list of version numbers or an exception, and an artifact, nothing, or an
  exception. An artifact carries its bytes in \<open>inline_data\<close>, which may be missing.
\<close>

record artifact =
  inline_data :: "string option"

record artifact_service =
  list_versions :: "ustr \<Rightarrow> ustr \<Rightarrow> ustr \<Rightarrow> ustr \<Rightarrow> exn + int list"
  load_artifact :: "ustr \<Rightarrow> ustr \<Rightarrow> ustr \<Rightarrow> ustr \<Rightarrow> int \<Rightarrow> exn + artifact option"

text \<open>
  The invocation context: \<open>app_name\<close>, \<open>user_id\<close>, what \<open>get_original_session_id\<close> returns
  for it, and the artifact service; each may be missing.
\<close>

record inv_context =
  app_name :: "ustr option"
  user_id :: "ustr option"
  session_id :: "ustr option"
  artifact_service :: "artifact_service option"

record tool_context =
  invocation_context :: "inv_context option"

text \<open>
  What the functions do to the outside: the calls they make to the artifact service and
  the files they write, in order (\<open>trace\<close>), and the content of the hosting directory
  (\<open>files\<close>, from the hosted filename to the bytes).
\<close>

datatype event =
    ListVersions ustr
  | LoadArtifact ustr int
  | WriteFile ustr string

record world =
  files :: "ustr \<rightharpoonup> string"
  trace :: "event list"

text \<open>
  Two things the interpreter and the operating system decide: the result of \<open>int(s)\<close> on a
  \<open>str\<close> (a number, or \<open>ValueError\<close>), and whether writing a file of a given name fails.
\<close>

record platform =
  py_int :: "ustr \<Rightarrow> exn + int"
  write_error :: "ustr \<Rightarrow> exn option"

definition write_file :: "platform \<Rightarrow> ustr \<Rightarrow> string \<Rightarrow> world \<Rightarrow> exn + world" where
  "write_file pf hosted_filename content w =
     (case write_error pf hosted_filename of
        Some e \<Rightarrow> Inl e
      | None \<Rightarrow>
          Inr (w\<lparr>files := (files w)(hosted_filename \<mapsto> content),
                 trace := trace w @ [WriteFile hosted_filename content]\<rparr>))"

definition truthy :: "ustr option \<Rightarrow> bool" where
  "truthy v = (case v of None \<Rightarrow> False | Some s \<Rightarrow> s \<noteq> [])"

subsection \<open>Result dictionaries\<close>

datatype pyval =
    StrV ustr
  | IntV int
  | DictsV "(string \<times> ustr) list list"

type_synonym result = "(string \<times> pyval) list"

definition error_result :: "ustr \<Rightarrow> result" where
  "error_result message = [(''status'', StrV (u ''error'')), (''message'', StrV message)]"

definition get_str :: "result \<Rightarrow> string \<Rightarrow> ustr" where
  \<comment> \<open>\<open>result[key]\<close> for a key that holds a \<open>str\<close>\<close>
  "get_str r key = (case map_of r key of Some (StrV v) \<Rightarrow> v | _ \<Rightarrow> [])"

subsection \<open>Fetching an artifact\<close>

text \<open>
  \<open>host_artifact\<close> (lines 215 to 256) and \<open>_host_single_artifact\<close> (lines 86 to 127) hold
  the same statements for this part: parse the version, ask for the versions when none
  was given, load the artifact, take its bytes. The service method is called with the same
  arguments whether it is a coroutine function or not.
\<close>

definition parse_version :: "platform \<Rightarrow> ustr option \<Rightarrow> exn + int option" where
  \<comment> \<open>\<open>int(version_str) if version_str else None\<close>\<close>
  "parse_version pf version_str =
     (case version_str of
        None \<Rightarrow> Inr None
      | Some v \<Rightarrow>
          (if v = [] then Inr None
           else (case py_int pf v of Inl e \<Rightarrow> Inl e | Inr n \<Rightarrow> Inr (Some n))))"

definition py_max :: "int \<Rightarrow> int list \<Rightarrow> int" where
  \<comment> \<open>\<open>max\<close> of a non-empty list, first element apart\<close>
  "py_max v vs = fold max vs v"

text \<open>The messages of the two \<open>FileNotFoundError\<close>s that the fetch raises.\<close>

definition not_found_message :: "ustr \<Rightarrow> ustr" where
  \<comment> \<open>\<^verbatim>\<open>f"Artifact '{filename_base}' not found."\<close>\<close>
  "not_found_message filename_base =
     u ''Artifact '' @ [39] @ filename_base @ [39] @ u '' not found.''"

definition content_not_found_message :: "ustr \<Rightarrow> int \<Rightarrow> ustr" where
  \<comment> \<open>\<^verbatim>\<open>f"Content for '{filename_base}' v{version_to_load} not found."\<close>\<close>
  "content_not_found_message filename_base version_to_load =
     u ''Content for '' @ [39] @ filename_base @ [39] @ u '' v'' @ str_int version_to_load
       @ u '' not found.''"

definition resolve_version ::
  "artifact_service \<Rightarrow> ustr \<Rightarrow> ustr \<Rightarrow> ustr \<Rightarrow> ustr \<Rightarrow> int option \<Rightarrow> world
     \<Rightarrow> (exn + int) \<times> world" where
  "resolve_version svc app user sess filename_base version_to_load w =
     (case version_to_load of
        Some v \<Rightarrow> (Inr v, w)
      | None \<Rightarrow>
          (let w1 = w\<lparr>trace := trace w @ [ListVersions filename_base]\<rparr>
           in case list_versions svc app user sess filename_base of
                Inl e \<Rightarrow> (Inl e, w1)
              | Inr versions \<Rightarrow>
                  (case versions of
                     [] \<Rightarrow> (Inl (FileNotFoundError (not_found_message filename_base)), w1)
                   | v # vs \<Rightarrow> (Inr (py_max v vs), w1))))"

definition load_bytes ::
  "artifact_service \<Rightarrow> ustr \<Rightarrow> ustr \<Rightarrow> ustr \<Rightarrow> ustr \<Rightarrow> int \<Rightarrow> world
     \<Rightarrow> (exn + string) \<times> world" where
  "load_bytes svc app user sess filename_base version_to_load w =
     (let w1 = w\<lparr>trace := trace w @ [LoadArtifact filename_base version_to_load]\<rparr>;
          not_found = FileNotFoundError
                        (content_not_found_message filename_base version_to_load)
      in case load_artifact svc app user sess filename_base version_to_load of
           Inl e \<Rightarrow> (Inl e, w1)
         | Inr None \<Rightarrow> (Inl not_found, w1)
         | Inr (Some artifact) \<Rightarrow>
             (case inline_data artifact of
                None \<Rightarrow> (Inl not_found, w1)
              | Some artifact_bytes \<Rightarrow> (Inr artifact_bytes, w1)))"

definition fetch_artifact ::
  "platform \<Rightarrow> artifact_service \<Rightarrow> ustr \<Rightarrow> ustr \<Rightarrow> ustr \<Rightarrow> ustr \<Rightarrow> world
     \<Rightarrow> (exn + ustr \<times> int \<times> string) \<times> world" where
  "fetch_artifact pf svc app user sess artifact_filename w =
     (case rsplit_colon artifact_filename of
        (filename_base, version_str) \<Rightarrow>
          (case parse_version pf version_str of
             Inl e \<Rightarrow> (Inl e, w)
           | Inr version_opt \<Rightarrow>
               (case resolve_version svc app user sess filename_base version_opt w of
                  (Inl e, w1) \<Rightarrow> (Inl e, w1)
                | (Inr version_to_load, w1) \<Rightarrow>
                    (case load_bytes svc app user sess filename_base version_to_load w1 of
                       (Inl e, w2) \<Rightarrow> (Inl e, w2)
                     | (Inr artifact_bytes, w2) \<Rightarrow>
                         (Inr (filename_base, version_to_load, artifact_bytes), w2)))))"

subsection \<open>The hosted filename\<close>

text \<open>
  Lines 259 to 265 of \<open>host_artifact\<close>, and lines 130 to 135 of \<open>_host_single_artifact\<close>:
  \<^verbatim>\<open>hosted_filename = custom_filename if custom_filename else filename_base\<close>, and the
  extension of the source is kept when the custom name has no dot and the source has one.
\<close>

definition determine_hosted_filename :: "ustr option \<Rightarrow> ustr \<Rightarrow> ustr" where
  "determine_hosted_filename custom_filename filename_base =
     (case custom_filename of
        None \<Rightarrow> filename_base
      | Some custom \<Rightarrow>
          (if custom = [] then filename_base
           else if 46 \<notin> set custom \<and> 46 \<in> set filename_base
                then custom @ path_suffix filename_base
                else custom))"

subsection \<open>\<open>_host_single_artifact\<close>\<close>

definition single_error :: "ustr \<Rightarrow> exn \<Rightarrow> result" where
  "single_error artifact_filename e =
     [(''status'', StrV (u ''error'')), (''artifact_filename'', StrV artifact_filename),
      (''error'', StrV (str_exn e))]"

definition host_single_artifact ::
  "platform \<Rightarrow> ustr \<Rightarrow> ustr option \<Rightarrow> ustr \<Rightarrow> ustr \<Rightarrow> ustr \<Rightarrow> artifact_service
     \<Rightarrow> web_server \<Rightarrow> ustr option \<Rightarrow> world \<Rightarrow> result \<times> world" where
  "host_single_artifact pf artifact_filename custom_filename app user sess svc web base_url w =
     (case fetch_artifact pf svc app user sess artifact_filename w of
        (Inl e, w1) \<Rightarrow> (single_error artifact_filename e, w1)
      | (Inr (filename_base, version_to_load, artifact_bytes), w1) \<Rightarrow>
          (let hosted_filename = determine_hosted_filename custom_filename filename_base
           in case write_file pf hosted_filename artifact_bytes w1 of
                Inl e \<Rightarrow> (single_error artifact_filename e, w1)
              | Inr w2 \<Rightarrow>
                  ([(''status'', StrV (u ''success'')),
                    (''artifact_filename'', StrV filename_base),
                    (''artifact_version'', IntV version_to_load),
                    (''hosted_filename'', StrV hosted_filename),
                    (''url'', StrV (get_url web hosted_filename base_url))], w2)))"

text \<open>
  What becomes of a reference: the name under which \<open>_host_single_artifact\<close> hosts it,
  or nothing when hosting it fails. (The result does not depend on the state in which the
  call is made.)
\<close>

definition hosted_as ::
  "platform \<Rightarrow> artifact_service \<Rightarrow> ustr \<Rightarrow> ustr \<Rightarrow> ustr \<Rightarrow> web_server \<Rightarrow> ustr option \<Rightarrow> ustr
     \<Rightarrow> ustr option" where
  "hosted_as pf svc app user sess web base_url ref_filename =
     (let result = fst (host_single_artifact pf ref_filename None app user sess svc web base_url
                          \<lparr>files = Map.empty, trace = []\<rparr>)
      in if map_of result ''status'' = Some (StrV (u ''success''))
         then Some (get_str result ''hosted_filename'')
         else None)"

subsection \<open>Hosting the references of an HTML artifact\<close>

text \<open>\<open>filename_map[key] = value\<close> on the list of items of a dictionary.\<close>

fun dict_set :: "'k \<Rightarrow> 'v \<Rightarrow> ('k \<times> 'v) list \<Rightarrow> ('k \<times> 'v) list" where
  "dict_set k v [] = [(k, v)]"
| "dict_set k v ((k', v') # kvs) =
     (if k = k' then (k, v) # kvs else (k', v') # dict_set k v kvs)"

text \<open>
  The loop of lines 288 to 310. \<open>host_one\<close> is the call of \<open>_host_single_artifact\<close> with
  everything but the referenced filename fixed.
\<close>

fun host_references ::
  "(ustr \<Rightarrow> world \<Rightarrow> result \<times> world) \<Rightarrow> ustr list \<Rightarrow> (ustr \<times> ustr) list
     \<Rightarrow> (string \<times> ustr) list list \<Rightarrow> world
     \<Rightarrow> ((ustr \<times> ustr) list \<times> (string \<times> ustr) list list) \<times> world" where
  "host_references host_one [] filename_map referenced_artifacts w =
     ((filename_map, referenced_artifacts), w)"
| "host_references host_one (ref_filename # refs) filename_map referenced_artifacts w =
     (case host_one ref_filename w of
        (result, w1) \<Rightarrow>
          (if map_of result ''status'' = Some (StrV (u ''success''))
           then host_references host_one refs
                  (dict_set ref_filename (get_str result ''hosted_filename'') filename_map)
                  (referenced_artifacts
                     @ [[(''filename'', ref_filename),
                         (''hosted_filename'', get_str result ''hosted_filename''),
                         (''url'', get_str result ''url'')]])
                  w1
           else host_references host_one refs filename_map referenced_artifacts w1))"

text \<open>
  Lines 275 to 321, for an artifact whose hosted name is an HTML name. The result is the
  bytes to write, the list \<open>referenced_artifacts\<close> and the state after hosting the
  references. Both \<open>except\<close> clauses only log, so after either the original bytes go on.
\<close>

definition process_html ::
  "(ustr \<Rightarrow> world \<Rightarrow> result \<times> world) \<Rightarrow> string \<Rightarrow> world
     \<Rightarrow> string \<times> (string \<times> ustr) list list \<times> world" where
  "process_html host_one artifact_bytes w =
     (case decode artifact_bytes of
        None \<Rightarrow> (artifact_bytes, [], w)
      | Some html_content \<Rightarrow>
          (let referenced_filenames = extract_artifact_references html_content
           in if referenced_filenames = [] then (artifact_bytes, [], w)
              else (case host_references host_one referenced_filenames [] [] w of
                      ((filename_map, referenced_artifacts), w1) \<Rightarrow>
                        (if filename_map \<noteq> []
                         then (case encode (replace_artifact_references html_content
                                              filename_map) of
                                 Some updated \<Rightarrow> (updated, referenced_artifacts, w1)
                               | None \<Rightarrow> (artifact_bytes, referenced_artifacts, w1))
                         else (artifact_bytes, referenced_artifacts, w1)))))"

definition is_html_name :: "ustr \<Rightarrow> bool" where
  "is_html_name hosted_filename =
     (endswith (lower hosted_filename) (u ''.html'') \<or> endswith (lower hosted_filename) (u ''.htm''))"

subsection \<open>\<open>host_artifact\<close>\<close>

definition str_of :: "ustr option \<Rightarrow> ustr" where
  "str_of v = (case v of None \<Rightarrow> [] | Some s \<Rightarrow> s)"

definition success_result ::
  "ustr \<Rightarrow> int \<Rightarrow> ustr \<Rightarrow> ustr \<Rightarrow> (string \<times> ustr) list list \<Rightarrow> result" where
  "success_result filename_base version_to_load hosted_filename url referenced_artifacts =
     [(''status'', StrV (u ''success'')),
      (''message'',
         StrV (if referenced_artifacts = [] then u ''Artifact hosted successfully''
               else u ''Artifact hosted successfully along with ''
                      @ str_int (int (length referenced_artifacts))
                      @ u '' referenced artifact(s)'')),
      (''artifact_filename'', StrV filename_base),
      (''artifact_version'', IntV version_to_load),
      (''hosted_filename'', StrV hosted_filename),
      (''url'', StrV url)]
     @ (if referenced_artifacts = [] then []
        else [(''referenced_artifacts'', DictsV referenced_artifacts)])"

text \<open>
  The body of the \<open>try\<close> statement of \<open>host_artifact\<close> (lines 202 to 348): \<open>Inl e\<close> is
  the exception \<open>e\<close> leaving the body, with the state at that moment.
\<close>

definition host_artifact_try ::
  "platform \<Rightarrow> web_server \<Rightarrow> ustr \<Rightarrow> ustr option \<Rightarrow> tool_context
     \<Rightarrow> (string \<times> ustr) list option \<Rightarrow> world \<Rightarrow> (exn + result) \<times> world" where
  "host_artifact_try pf web artifact_filename custom_filename tc tool_config w =
     (case invocation_context tc of
        None \<Rightarrow> (Inl (ValueError (u ''InvocationContext is not available.'')), w)
      | Some ictx \<Rightarrow>
          (case artifact_service ictx of
             None \<Rightarrow> (Inl (ValueError (u ''Missing required context parts'')), w)
           | Some svc \<Rightarrow>
               (if \<not> (truthy (app_name ictx) \<and> truthy (user_id ictx) \<and> truthy (session_id ictx))
                then (Inl (ValueError (u ''Missing required context parts'')), w)
                else
                  (let app = str_of (app_name ictx);
                       user = str_of (user_id ictx);
                       sess = str_of (session_id ictx)
                   in case fetch_artifact pf svc app user sess artifact_filename w of
                        (Inl e, w1) \<Rightarrow> (Inl e, w1)
                      | (Inr (filename_base, version_to_load, artifact_bytes), w1) \<Rightarrow>
                          (let hosted_filename =
                                 determine_hosted_filename custom_filename filename_base;
                               base_url = (case tool_config of
                                             None \<Rightarrow> None
                                           | Some cfg \<Rightarrow> map_of cfg ''base_url'')
                           in case (if is_html_name hosted_filename
                                    then process_html
                                           (\<lambda>ref_filename.
                                              host_single_artifact pf ref_filename None app user
                                                sess svc web base_url)
                                           artifact_bytes w1
                                    else (artifact_bytes, [], w1)) of
                                (final_bytes, referenced_artifacts, w2) \<Rightarrow>
                                  (case write_file pf hosted_filename final_bytes w2 of
                                     Inl e \<Rightarrow> (Inl e, w2)
                                   | Inr w3 \<Rightarrow>
                                       (Inr (success_result filename_base version_to_load
                                               hosted_filename
                                               (get_url web hosted_filename base_url)
                                               referenced_artifacts),
                                        w3)))))))"

text \<open>
  The two \<open>except\<close> clauses of \<open>host_artifact\<close> (lines 350 to 355) turn an exception
  that leaves the body into a result: \<open>str(e)\<close> for a \<open>FileNotFoundError\<close>, and
  \<open>An unexpected error occurred: \<close> followed by \<open>str(e)\<close> for any other exception.
\<close>

fun handle_exception :: "exn \<Rightarrow> result" where
  "handle_exception (FileNotFoundError m) = error_result m"
| "handle_exception e = error_result (u ''An unexpected error occurred: '' @ str_exn e)"

text \<open>\<open>host_artifact\<close>: \<open>registry\<close> is the global slot that \<open>get_web_server()\<close> reads.\<close>

definition host_artifact ::
  "platform \<Rightarrow> web_server option \<Rightarrow> ustr \<Rightarrow> ustr option \<Rightarrow> tool_context option
     \<Rightarrow> (string \<times> ustr) list option \<Rightarrow> world \<Rightarrow> result \<times> world" where
  "host_artifact pf registry artifact_filename custom_filename tool_context tool_config w =
     (case tool_context of
        None \<Rightarrow> (error_result (u ''ToolContext is required''), w)
      | Some tc \<Rightarrow>
          (case registry of
             None \<Rightarrow>
               (error_result
                  (u ''Web server is not running. Please check agent configuration.''), w)
           | Some web \<Rightarrow>
               (case host_artifact_try pf web artifact_filename custom_filename tc
                       tool_config w of
                  (Inr result, w1) \<Rightarrow> (result, w1)
                | (Inl e, w1) \<Rightarrow> (handle_exception e, w1))))"

text \<open>
  The execution context that lets \<open>host_artifact\<close> reach the artifact service: an
  invocation context with a non-empty application name, user and session, and a service.
\<close>

definition context_of :: "ustr \<Rightarrow> ustr \<Rightarrow> ustr \<Rightarrow> artifact_service \<Rightarrow> tool_context" where
  "context_of app user sess svc =
     \<lparr>invocation_context =
        Some \<lparr>app_name = Some app, user_id = Some user, session_id = Some sess,
              artifact_service = Some svc\<rparr>\<rparr>"

subsection \<open>A small deployment, for the examples\<close>

text \<open>
  A service with four artifacts: \<open>page.html\<close> in versions 1, 3 and 2 (listed in that
  order), whose newest version refers to \<open>photo.jpg\<close> twice and to \<open>missing.png\<close> once;
  \<open>photo.jpg\<close> in version 1; \<open>bad.html\<close> in version 2, whose bytes are not UTF-8; and
  \<open>orphan.html\<close> in version 1, whose only reference is to \<open>missing.png\<close>. There is no
  artifact \<open>missing.png\<close>: the service lists no version of it. Asking for the versions of
  \<open>down.bin\<close> fails in the service.
\<close>

definition token_bytes :: "string \<Rightarrow> string" where
  "token_bytes name =
     [char_of (194::nat), char_of (171::nat)] @ ''artifact_content:'' @ name
       @ '' >>> format:datauri'' @ [char_of (194::nat), char_of (187::nat)]"

definition page_bytes :: string where
  "page_bytes =
     ''<img src='' @ token_bytes ''photo.jpg'' @ ''><a href='' @ token_bytes ''missing.png''
       @ ''>x</a><img src='' @ token_bytes ''photo.jpg'' @ ''>''"

definition orphan_bytes :: string where
  "orphan_bytes = ''<img src='' @ token_bytes ''missing.png'' @ ''>''"

definition bad_bytes :: string where
  "bad_bytes = ''<p>'' @ [char_of (255::nat)]"

definition example_service :: artifact_service where
  "example_service =
     \<lparr>list_versions = (\<lambda>app user sess f.
          if f = u ''page.html'' then Inr [1, 3, 2]
          else if f = u ''photo.jpg'' then Inr [1]
          else if f = u ''bad.html'' then Inr [2]
          else if f = u ''orphan.html'' then Inr [1]
          else if f = u ''down.bin'' then Inl (Exception (u ''backend down''))
          else Inr []),
      load_artifact = (\<lambda>app user sess f v.
          if f = u ''page.html'' \<and> v = 3 then Inr (Some \<lparr>inline_data = Some page_bytes\<rparr>)
          else if f = u ''photo.jpg'' \<and> v = 1 then Inr (Some \<lparr>inline_data = Some ''JPEG''\<rparr>)
          else if f = u ''bad.html'' \<and> v = 2 then Inr (Some \<lparr>inline_data = Some bad_bytes\<rparr>)
          else if f = u ''orphan.html'' \<and> v = 1
          then Inr (Some \<lparr>inline_data = Some orphan_bytes\<rparr>)
          else Inr None)\<rparr>"

definition example_context :: tool_context where
  "example_context = context_of (u ''app'') (u ''alice'') (u ''s1'') example_service"

definition example_platform :: platform where
  "example_platform =
     \<lparr>py_int = (\<lambda>s. if s = u ''2'' then Inr 2
                     else Inl (ValueError (u ''invalid literal for int() with base 10''))),
      write_error = (\<lambda>name. None)\<rparr>"

definition full_disk_platform :: platform where
  "full_disk_platform =
     example_platform\<lparr>write_error :=
        (\<lambda>name. Some (Exception (u ''[Errno 28] No space left on device'')))\<rparr>"

definition empty_world :: world where
  "empty_world = \<lparr>files = Map.empty, trace = []\<rparr>"

text \<open>The text of the two pages, as pieces.\<close>

definition page_pieces :: "piece list" where
  "page_pieces =
     [Text (u ''<img src=''), Ref (u ''photo.jpg '') (u '' format:datauri''),
      Text (u ''><a href=''), Ref (u ''missing.png '') (u '' format:datauri''),
      Text (u ''>x</a><img src=''), Ref (u ''photo.jpg '') (u '' format:datauri''),
      Text (u ''>'')]"

definition orphan_pieces :: "piece list" where
  "orphan_pieces =
     [Text (u ''<img src=''), Ref (u ''missing.png '') (u '' format:datauri''), Text (u ''>'')]"

section \<open>Properties of \<open>get_url\<close>\<close>

lemma takeWhile_eq_replicate:
  "takeWhile (\<lambda>c. c = a) xs = replicate (length (takeWhile (\<lambda>c. c = a) xs)) a"
  by (rule replicate_eqI) (auto dest: set_takeWhileD)

lemma rstrip_slash_decomp:
  "\<exists>k. b = rstrip_chars [47] b @ replicate k 47"
proof -
  let ?t = "takeWhile (\<lambda>c. c = 47) (rev b)"
  let ?d = "dropWhile (\<lambda>c. c = 47) (rev b)"
  have "rev b = ?t @ ?d" by simp
  then have "b = rev ?d @ rev ?t"
    by (metis rev_append rev_rev_ident)
  moreover have "rev ?t = replicate (length ?t) (47::nat)"
    using takeWhile_eq_replicate [of 47 "rev b"] by (metis rev_replicate)
  ultimately have "b = rev ?d @ replicate (length ?t) 47" by simp
  then show ?thesis
    unfolding rstrip_chars_def by auto
qed

lemma dropWhile_head: "dropWhile P xs = x # ys \<Longrightarrow> \<not> P x"
  by (induction xs) (auto split: if_splits)

lemma rstrip_slash_last:
  "rstrip_chars [47] b = [] \<or> last (rstrip_chars [47] b) \<noteq> 47"
proof (cases "dropWhile (\<lambda>c. c = (47::nat)) (rev b)")
  case Nil
  then show ?thesis unfolding rstrip_chars_def by simp
next
  case (Cons x xs)
  from dropWhile_head [OF Cons] have "x \<noteq> 47" .
  moreover have "rstrip_chars [47] b = rev xs @ [x]"
    unfolding rstrip_chars_def using Cons by simp
  ultimately show ?thesis by simp
qed

lemma rstrip_slash_spec: "slashes_stripped b (rstrip_chars (u ''/'') b)"
  unfolding slashes_stripped_def
  using rstrip_slash_decomp [of b] rstrip_slash_last [of b]
  by (simp add: u_def)

text \<open>
  C10. An empty base-URL override is treated as absent: \<open>get_url(f, "")\<close> is the default
  URL \<open>http://{host}:{port}/{f}\<close>, the same as with no override, and not \<open>/{f}\<close>.
\<close>

theorem get_url_empty_override:
  "get_url self f (Some []) = u ''http://'' @ host self @ u '':'' @ str_int (port self) @ u ''/'' @ f
   \<and> get_url self f (Some []) = get_url self f None
   \<and> get_url self f (Some []) \<noteq> u ''/'' @ f"
  by (simp add: get_url_def u_def)

text \<open>
  C2, as the specification states it, fails for the override \<open>""\<close>, which is a \<open>str\<close> and
  not \<open>None\<close>: the result is the default URL, not \<open>"/" + f\<close>.
\<close>

theorem get_url_override_counterexample:
  "get_url example_server (u ''a.txt'') (Some [])
     \<noteq> rstrip_chars (u ''/'') [] @ u ''/'' @ u ''a.txt''"
  by (simp add: get_url_def example_server_def rstrip_chars_def u_def)

text \<open>
  C2, amended. With no override \<open>get_url(f)\<close> is \<open>http://{host}:{port}/{f}\<close>; with a
  non-empty override \<open>b\<close> it is \<open>b\<close> without its trailing slashes, then \<open>/\<close>, then \<open>f\<close>.
  In both cases the filename is the end of the URL, character for character.
\<close>

theorem get_url_format:
  "get_url self f None = u ''http://'' @ host self @ u '':'' @ str_int (port self) @ u ''/'' @ f
   \<and> (b \<noteq> [] \<longrightarrow>
        (\<exists>r. slashes_stripped b r \<and> get_url self f (Some b) = r @ u ''/'' @ f)
        \<and> get_url self f (Some b) = rstrip_chars (u ''/'') b @ u ''/'' @ f)"
  using rstrip_slash_spec [of b] by (auto simp add: get_url_def)

theorem get_url_format_witness:
  "get_url example_server (u ''a b.html'') None = u ''http://127.0.0.1:8080/a b.html''
   \<and> u ''https://x.org/files//'' \<noteq> []
   \<and> get_url example_server (u ''a b.html'') (Some (u ''https://x.org/files//''))
       = u ''https://x.org/files/a b.html''"
  using get_url_format [of example_server "u ''a b.html''" "u ''https://x.org/files//''"]
  by (simp add: example_server_def u_def rstrip_chars_def str_int_def)
    (simp add: digit_chars.simps)

section \<open>Properties of \<open>host_artifact\<close>\<close>

subsection \<open>Structure of a call\<close>

lemma fetch_artifact_base:
  "fetch_artifact pf svc app user sess af w = (Inr (b, v, bytes), w') \<Longrightarrow> b = fst (rsplit_colon af)"
  unfolding fetch_artifact_def
  by (auto split: prod.splits sum.splits)

lemma host_artifact_with_context:
  assumes "app \<noteq> []" "user \<noteq> []" "sess \<noteq> []"
  shows "host_artifact pf (Some web) af custom (Some (context_of app user sess svc)) cfg w =
     (case fetch_artifact pf svc app user sess af w of
        (Inl e, w1) \<Rightarrow> (handle_exception e, w1)
      | (Inr (base, v, bytes), w1) \<Rightarrow>
          (let hosted = determine_hosted_filename custom base;
               base_url = (case cfg of None \<Rightarrow> None | Some c \<Rightarrow> map_of c ''base_url'')
           in case (if is_html_name hosted
                    then process_html
                           (\<lambda>ref. host_single_artifact pf ref None app user sess svc web base_url)
                           bytes w1
                    else (bytes, [], w1)) of
                (fb, ra, w2) \<Rightarrow>
                  (case write_file pf hosted fb w2 of
                     Inl e \<Rightarrow> (handle_exception e, w2)
                   | Inr w3 \<Rightarrow>
                       (success_result base v hosted (get_url web hosted base_url) ra, w3))))"
  using assms unfolding host_artifact_def host_artifact_try_def context_of_def
  by (simp add: truthy_def str_of_def Let_def split: prod.splits sum.splits)

lemma success_result_fields:
  "map_of (success_result b v h url ra) ''status'' = Some (StrV (u ''success''))"
  "get_str (success_result b v h url ra) ''hosted_filename'' = h"
  "map_of (success_result b v h url ra) ''artifact_version'' = Some (IntV v)"
  by (simp_all add: success_result_def get_str_def)

lemma error_result_fields:
  "map_of (error_result m) ''status'' = Some (StrV (u ''error''))"
  "map_of (error_result m) ''message'' = Some (StrV m)"
  by (simp_all add: error_result_def)

lemma handle_exception_fields:
  "map_of (handle_exception e) ''status'' = Some (StrV (u ''error''))"
  "\<exists>m. map_of (handle_exception e) ''message'' = Some (StrV m)"
  by (cases e; simp add: error_result_fields)+

lemma u_error_neq_success: "u ''error'' \<noteq> u ''success''"
  by (simp add: u_def)

lemma host_artifact_try_Inr:
  assumes "host_artifact_try pf web af custom tc cfg w = (Inr r, w')"
  shows "\<exists>v url ra content. r = success_result (fst (rsplit_colon af)) v
            (determine_hosted_filename custom (fst (rsplit_colon af))) url ra
          \<and> files w' (determine_hosted_filename custom (fst (rsplit_colon af))) = Some content"
  using assms unfolding host_artifact_try_def Let_def write_file_def
  by (auto split: option.splits sum.splits prod.splits if_splits dest!: fetch_artifact_base)

lemma host_artifact_success:
  assumes "host_artifact pf registry af custom tctx cfg w = (r, w')"
    and "map_of r ''status'' = Some (StrV (u ''success''))"
  shows "\<exists>web tc. registry = Some web \<and> tctx = Some tc
           \<and> host_artifact_try pf web af custom tc cfg w = (Inr r, w')"
  using assms u_error_neq_success unfolding host_artifact_def
  by (auto split: option.splits sum.splits prod.splits
           simp: error_result_fields handle_exception_fields)

lemma split_slash_no_slash: "47 \<notin> set s \<Longrightarrow> split_slash s = [s]"
  by (induction s) auto

lemma rfind_dot_last:
  "46 \<notin> set ext \<Longrightarrow> rfind_dot (stem @ 46 # ext) = Some (length stem)"
proof -
  assume a: "46 \<notin> set ext"
  have "takeWhile (\<lambda>c. c \<noteq> 46) (rev ext @ 46 # rev stem) = rev ext"
    using a by (auto simp add: takeWhile_tail)
  then show ?thesis by (simp add: rfind_dot_def)
qed

lemma path_suffix_simple:
  assumes "stem \<noteq> []" "ext \<noteq> []" "46 \<notin> set ext" "47 \<notin> set stem" "47 \<notin> set ext"
  shows "path_suffix (stem @ 46 # ext) = 46 # ext"
proof -
  have "split_slash (stem @ 46 # ext) = [stem @ 46 # ext]"
    using assms by (intro split_slash_no_slash) auto
  moreover have "stem @ 46 # ext \<noteq> [46]" using assms by (cases stem) auto
  ultimately have "path_name (stem @ 46 # ext) = stem @ 46 # ext"
    by (simp add: path_name_def)
  then show ?thesis
    using assms rfind_dot_last [of ext stem] by (simp add: path_suffix_def)
qed

subsection \<open>Example runs\<close>

lemmas example_defs = example_platform_def example_server_def example_context_def
  example_service_def empty_world_def context_of_def

lemma bad_html_run:
  "host_artifact example_platform (Some example_server) (u ''bad.html'') (Some (u ''x''))
     (Some example_context) None empty_world
   = (success_result (u ''bad.html'') 2 (u ''x.html'') (u ''http://127.0.0.1:8080/x.html'') [],
      \<lparr>files = [u ''x.html'' \<mapsto> bad_bytes],
       trace = [ListVersions (u ''bad.html''), LoadArtifact (u ''bad.html'') 2,
                WriteFile (u ''x.html'') bad_bytes]\<rparr>)"
  by (simp add: host_artifact_def host_artifact_try_def example_defs truthy_def str_of_def
      fetch_artifact_def rsplit_colon_def parse_version_def resolve_version_def load_bytes_def
      py_max_def determine_hosted_filename_def path_suffix_def path_name_def rfind_dot_def
      is_html_name_def lower_def endswith_def process_html_def decode_def bad_bytes_def
      not_found_message_def content_not_found_message_def
      write_file_def get_url_def str_int_def u_def Let_def digit_chars.simps cont_def)

subsection \<open>The hosted filename\<close>

text \<open>
  C7. The hosted filename is the custom filename when one is given (a non-empty string)
  and the base filename, the part of the artifact identifier before its last colon,
  otherwise; when the custom filename has no dot and the base filename has one, the suffix
  of the base filename (\<open>Path(filename_base).suffix\<close>) is appended to the custom name. For
  a plain name \<open>stem.ext\<close> the suffix is \<open>.ext\<close>. A successful call reports that name as
  \<open>hosted_filename\<close> and has written a file of that name.
\<close>

theorem hosted_filename_rule:
  "determine_hosted_filename None base = base
   \<and> determine_hosted_filename (Some []) base = base
   \<and> (custom \<noteq> [] \<longrightarrow>
        determine_hosted_filename (Some custom) base
          = (if 46 \<notin> set custom \<and> 46 \<in> set base then custom @ path_suffix base else custom))
   \<and> (stem \<noteq> [] \<and> ext \<noteq> [] \<and> 46 \<notin> set ext \<and> 47 \<notin> set stem \<and> 47 \<notin> set ext \<longrightarrow>
        path_suffix (stem @ 46 # ext) = 46 # ext)
   \<and> (host_artifact pf registry af custom_filename tctx cfg w = (r, w')
        \<and> map_of r ''status'' = Some (StrV (u ''success'')) \<longrightarrow>
        get_str r ''hosted_filename''
          = determine_hosted_filename custom_filename (fst (rsplit_colon af))
        \<and> files w' (determine_hosted_filename custom_filename (fst (rsplit_colon af))) \<noteq> None)"
proof (intro conjI impI)
  show "determine_hosted_filename None base = base"
    by (simp add: determine_hosted_filename_def)
  show "determine_hosted_filename (Some []) base = base"
    by (simp add: determine_hosted_filename_def)
  show "determine_hosted_filename (Some custom) base
          = (if 46 \<notin> set custom \<and> 46 \<in> set base then custom @ path_suffix base else custom)"
    if "custom \<noteq> []" using that by (simp add: determine_hosted_filename_def)
  show "path_suffix (stem @ 46 # ext) = 46 # ext"
    if "stem \<noteq> [] \<and> ext \<noteq> [] \<and> 46 \<notin> set ext \<and> 47 \<notin> set stem \<and> 47 \<notin> set ext"
    using that path_suffix_simple by blast
next
  assume a: "host_artifact pf registry af custom_filename tctx cfg w = (r, w')
        \<and> map_of r ''status'' = Some (StrV (u ''success''))"
  then obtain web tc where "host_artifact_try pf web af custom_filename tc cfg w = (Inr r, w')"
    using host_artifact_success by blast
  from host_artifact_try_Inr [OF this]
  show "get_str r ''hosted_filename''
          = determine_hosted_filename custom_filename (fst (rsplit_colon af))"
    and "files w' (determine_hosted_filename custom_filename (fst (rsplit_colon af))) \<noteq> None"
    by (auto simp: success_result_fields)
qed

theorem hosted_filename_rule_witness:
  "determine_hosted_filename None (u ''page.html'') = u ''page.html''
   \<and> u ''report'' \<noteq> []
   \<and> determine_hosted_filename (Some (u ''report'')) (u ''page.html'') = u ''report.html''
   \<and> path_suffix (u ''page.html'') = u ''.html''
   \<and> map_of (fst (host_artifact example_platform (Some example_server) (u ''bad.html'')
                     (Some (u ''x'')) (Some example_context) None empty_world)) ''status''
       = Some (StrV (u ''success''))
   \<and> get_str (fst (host_artifact example_platform (Some example_server) (u ''bad.html'')
                     (Some (u ''x'')) (Some example_context) None empty_world)) ''hosted_filename''
       = u ''x.html''"
  using hosted_filename_rule [of "u ''page.html''" "u ''report''" "u ''page''" "u ''html''"
      example_platform "Some example_server" "u ''bad.html''" "Some (u ''x'')"
      "Some example_context" None empty_world
      "success_result (u ''bad.html'') 2 (u ''x.html'') (u ''http://127.0.0.1:8080/x.html'') []"
      "\<lparr>files = [u ''x.html'' \<mapsto> bad_bytes],
        trace = [ListVersions (u ''bad.html''), LoadArtifact (u ''bad.html'') 2,
                 WriteFile (u ''x.html'') bad_bytes]\<rparr>"]
  unfolding bad_html_run
  by (simp add: success_result_fields rsplit_colon_def)
    (simp add: u_def determine_hosted_filename_def path_suffix_def path_name_def rfind_dot_def)

subsection \<open>Which version is loaded\<close>

lemma py_max_Max: "py_max v vs = Max (set (v # vs))"
  unfolding py_max_def by (rule Max.set_eq_fold [symmetric])

lemma rsplit_colon_plain: "58 \<notin> set af \<Longrightarrow> rsplit_colon af = (af, None)"
  by (simp add: rsplit_colon_def)

lemma fetch_no_versions:
  assumes "58 \<notin> set af" "list_versions svc app user sess af = Inr []"
  shows "fetch_artifact pf svc app user sess af w
           = (Inl (FileNotFoundError (not_found_message af)),
              w\<lparr>trace := trace w @ [ListVersions af]\<rparr>)"
  using assms
  by (simp add: fetch_artifact_def rsplit_colon_plain parse_version_def resolve_version_def)

lemma fetch_latest:
  assumes "58 \<notin> set af" "list_versions svc app user sess af = Inr vs" "vs \<noteq> []"
  shows "\<exists>res. fetch_artifact pf svc app user sess af w
                 = (res, w\<lparr>trace := trace w @ [ListVersions af, LoadArtifact af (Max (set vs))]\<rparr>)
               \<and> (\<forall>b v bytes. res = Inr (b, v, bytes) \<longrightarrow> b = af \<and> v = Max (set vs))"
proof -
  obtain v vs' where vs: "vs = v # vs'" using assms(3) by (cases vs) auto
  show ?thesis
    using assms(1,2) unfolding vs
    by (auto simp add: fetch_artifact_def rsplit_colon_plain parse_version_def
        resolve_version_def load_bytes_def Let_def py_max_Max
        split: sum.splits option.splits)
qed

text \<open>
  C5. For an artifact identifier with no colon, hence no version suffix, the fetch asks
  the service for the versions of that name and loads the greatest number of the list it
  answers, wherever it stands in the list; a successful \<open>host_artifact\<close> reports that
  version. When the list is empty, nothing is loaded: the fetch ends in the
  \<open>FileNotFoundError\<close> \<open>Artifact '...' not found.\<close>, which \<open>_host_single_artifact\<close>
  and \<open>host_artifact\<close> return as an error result with that message.
\<close>

theorem latest_version_is_maximum:
  assumes "58 \<notin> set af"
  shows
    "(list_versions svc app user sess af = Inr vs \<and> vs \<noteq> [] \<longrightarrow>
        (\<exists>res. fetch_artifact pf svc app user sess af w
                 = (res, w\<lparr>trace := trace w @ [ListVersions af, LoadArtifact af (Max (set vs))]\<rparr>)
               \<and> (\<forall>b v bytes. res = Inr (b, v, bytes) \<longrightarrow> b = af \<and> v = Max (set vs))))
     \<and> (list_versions svc app user sess af = Inr vs \<and> vs \<noteq> [] \<and> app \<noteq> [] \<and> user \<noteq> []
          \<and> sess \<noteq> []
          \<and> host_artifact pf (Some web) af custom (Some (context_of app user sess svc)) cfg w
              = (r, w')
          \<and> map_of r ''status'' = Some (StrV (u ''success'')) \<longrightarrow>
        map_of r ''artifact_version'' = Some (IntV (Max (set vs))))
     \<and> (list_versions svc app user sess af = Inr [] \<longrightarrow>
        fetch_artifact pf svc app user sess af w
          = (Inl (FileNotFoundError (not_found_message af)),
             w\<lparr>trace := trace w @ [ListVersions af]\<rparr>)
        \<and> host_single_artifact pf af custom app user sess svc web base_url w
          = (single_error af (FileNotFoundError (not_found_message af)),
             w\<lparr>trace := trace w @ [ListVersions af]\<rparr>))
     \<and> (list_versions svc app user sess af = Inr [] \<and> app \<noteq> [] \<and> user \<noteq> [] \<and> sess \<noteq> [] \<longrightarrow>
        host_artifact pf (Some web) af custom (Some (context_of app user sess svc)) cfg w
          = (error_result (not_found_message af), w\<lparr>trace := trace w @ [ListVersions af]\<rparr>))"
proof (intro conjI impI)
  assume a: "list_versions svc app user sess af = Inr vs \<and> vs \<noteq> []"
  then show "\<exists>res. fetch_artifact pf svc app user sess af w
                 = (res, w\<lparr>trace := trace w @ [ListVersions af, LoadArtifact af (Max (set vs))]\<rparr>)
               \<and> (\<forall>b v bytes. res = Inr (b, v, bytes) \<longrightarrow> b = af \<and> v = Max (set vs))"
    using fetch_latest [OF assms] by blast
next
  assume a: "list_versions svc app user sess af = Inr vs \<and> vs \<noteq> [] \<and> app \<noteq> [] \<and> user \<noteq> []
          \<and> sess \<noteq> []
          \<and> host_artifact pf (Some web) af custom (Some (context_of app user sess svc)) cfg w
              = (r, w')
          \<and> map_of r ''status'' = Some (StrV (u ''success''))"
  then obtain res where res:
    "fetch_artifact pf svc app user sess af w
       = (res, w\<lparr>trace := trace w @ [ListVersions af, LoadArtifact af (Max (set vs))]\<rparr>)"
    "\<forall>b v bytes. res = Inr (b, v, bytes) \<longrightarrow> b = af \<and> v = Max (set vs)"
    using fetch_latest [OF assms, of svc app user sess vs pf w] by blast
  from a have h: "host_artifact pf (Some web) af custom (Some (context_of app user sess svc)) cfg w
              = (r, w')" and s: "map_of r ''status'' = Some (StrV (u ''success''))"
    and ne: "app \<noteq> []" "user \<noteq> []" "sess \<noteq> []" by auto
  show "map_of r ''artifact_version'' = Some (IntV (Max (set vs)))"
  proof (cases res)
    case (Inl e)
    with h res(1) have "r = handle_exception e"
      by (simp add: host_artifact_with_context [OF ne])
    with s handle_exception_fields(1) [of e] u_error_neq_success show ?thesis
      by simp
  next
    case (Inr t)
    obtain b v bytes where t: "t = (b, v, bytes)" by (cases t) auto
    with Inr res(2) have "v = Max (set vs)" by simp
    with h res(1) s Inr t u_error_neq_success show ?thesis
      by (auto simp add: host_artifact_with_context [OF ne] handle_exception_fields
          success_result_fields Let_def split: prod.splits sum.splits)
  qed
next
  assume a: "list_versions svc app user sess af = Inr []"
  show "fetch_artifact pf svc app user sess af w
          = (Inl (FileNotFoundError (not_found_message af)),
             w\<lparr>trace := trace w @ [ListVersions af]\<rparr>)"
    using fetch_no_versions [OF assms a] .
  show "host_single_artifact pf af custom app user sess svc web base_url w
          = (single_error af (FileNotFoundError (not_found_message af)),
             w\<lparr>trace := trace w @ [ListVersions af]\<rparr>)"
    by (simp add: host_single_artifact_def fetch_no_versions [OF assms a])
next
  assume a: "list_versions svc app user sess af = Inr [] \<and> app \<noteq> [] \<and> user \<noteq> [] \<and> sess \<noteq> []"
  then have ne: "app \<noteq> []" "user \<noteq> []" "sess \<noteq> []" and l: "list_versions svc app user sess af = Inr []"
    by auto
  show "host_artifact pf (Some web) af custom (Some (context_of app user sess svc)) cfg w
          = (error_result (not_found_message af), w\<lparr>trace := trace w @ [ListVersions af]\<rparr>)"
    by (simp add: host_artifact_with_context [OF ne] fetch_no_versions [OF assms l])
qed

subsection \<open>More example runs\<close>

lemmas run_defs = host_artifact_def host_artifact_try_def example_defs truthy_def str_of_def
      fetch_artifact_def rsplit_colon_def parse_version_def resolve_version_def load_bytes_def
      py_max_def determine_hosted_filename_def path_suffix_def path_name_def rfind_dot_def
      is_html_name_def lower_def endswith_def process_html_def decode_def bad_bytes_def
      not_found_message_def content_not_found_message_def
      write_file_def get_url_def str_int_def u_def Let_def digit_chars.simps cont_def

lemma page_fetch:
  "fetch_artifact example_platform example_service (u ''app'') (u ''alice'') (u ''s1'')
     (u ''page.html'') empty_world
   = (Inr (u ''page.html'', 3, page_bytes),
      \<lparr>files = Map.empty,
       trace = [ListVersions (u ''page.html''), LoadArtifact (u ''page.html'') 3]\<rparr>)"
  by (simp add: run_defs)

lemma nothing_run:
  "host_artifact example_platform (Some example_server) (u ''nothing.txt'') None
     (Some example_context) None empty_world
   = (error_result (not_found_message (u ''nothing.txt'')),
      \<lparr>files = Map.empty, trace = [ListVersions (u ''nothing.txt'')]\<rparr>)"
  by (simp add: run_defs)

theorem latest_version_is_maximum_witness:
  "58 \<notin> set (u ''page.html'')
   \<and> list_versions example_service (u ''app'') (u ''alice'') (u ''s1'') (u ''page.html'')
       = Inr [1, 3, 2]
   \<and> Max (set [1, 3, 2 :: int]) = 3
   \<and> fetch_artifact example_platform example_service (u ''app'') (u ''alice'') (u ''s1'')
        (u ''page.html'') empty_world
       = (Inr (u ''page.html'', 3, page_bytes),
          \<lparr>files = Map.empty,
           trace = [ListVersions (u ''page.html''), LoadArtifact (u ''page.html'') 3]\<rparr>)
   \<and> 58 \<notin> set (u ''nothing.txt'')
   \<and> list_versions example_service (u ''app'') (u ''alice'') (u ''s1'') (u ''nothing.txt'')
       = Inr []
   \<and> host_artifact example_platform (Some example_server) (u ''nothing.txt'') None
        (Some example_context) None empty_world
       = (error_result (u ''Artifact '' @ [39] @ u ''nothing.txt'' @ [39] @ u '' not found.''),
          \<lparr>files = Map.empty, trace = [ListVersions (u ''nothing.txt'')]\<rparr>)"
proof -
  have p: "58 \<notin> set (u ''page.html'')" and n: "58 \<notin> set (u ''nothing.txt'')"
    by (simp_all add: u_def)
  have m: "Max (set [1, 3, 2 :: int]) = 3" by simp
  have lp: "list_versions example_service (u ''app'') (u ''alice'') (u ''s1'') (u ''page.html'')
       = Inr [1, 3, 2]"
    and ln: "list_versions example_service (u ''app'') (u ''alice'') (u ''s1'') (u ''nothing.txt'')
       = Inr []"
    by (simp_all add: example_service_def u_def)
  have ne: "u ''app'' \<noteq> []" "u ''alice'' \<noteq> []" "u ''s1'' \<noteq> []" by (simp_all add: u_def)
  note a = latest_version_is_maximum [OF p, where svc = example_service and app = "u ''app''"
      and user = "u ''alice''" and sess = "u ''s1''" and vs = "[1, 3, 2]"
      and pf = example_platform and w = empty_world]
  note b = latest_version_is_maximum [OF n, where svc = example_service and app = "u ''app''"
      and user = "u ''alice''" and sess = "u ''s1''" and pf = example_platform
      and w = empty_world and web = example_server and custom = None and cfg = None]
  from a [THEN conjunct1] lp m have "\<exists>res. fetch_artifact example_platform example_service (u ''app'')
        (u ''alice'') (u ''s1'') (u ''page.html'') empty_world
       = (res, empty_world\<lparr>trace := trace empty_world
            @ [ListVersions (u ''page.html''), LoadArtifact (u ''page.html'') 3]\<rparr>)"
    by simp blast
  moreover from b [THEN conjunct2, THEN conjunct2, THEN conjunct2] ln ne
  have "host_artifact example_platform (Some example_server) (u ''nothing.txt'') None
        (Some example_context) None empty_world
       = (error_result (not_found_message (u ''nothing.txt'')),
          empty_world\<lparr>trace := trace empty_world @ [ListVersions (u ''nothing.txt'')]\<rparr>)"
    unfolding example_context_def by simp
  ultimately show ?thesis
    using p n m lp ln page_fetch by (simp add: not_found_message_def empty_world_def)
qed

subsection \<open>HTML that is not UTF-8\<close>

text \<open>
  C4. When the hosted name of an artifact is an HTML name and its bytes are not valid
  UTF-8, \<open>host_artifact\<close> does nothing between the fetch and the write: no reference is
  looked for or hosted, the original bytes are written under the hosted name, and the
  result is the success result with no referenced artifacts. (The write itself is taken
  to succeed.)
\<close>

theorem invalid_utf8_html_hosted_unchanged:
  assumes "app \<noteq> []" "user \<noteq> []" "sess \<noteq> []"
    and "fetch_artifact pf svc app user sess af w = (Inr (base, v, bytes), w1)"
    and "is_html_name (determine_hosted_filename custom base)"
    and "decode bytes = None"
    and "write_error pf (determine_hosted_filename custom base) = None"
  shows "host_artifact pf (Some web) af custom (Some (context_of app user sess svc)) cfg w
       = (success_result base v (determine_hosted_filename custom base)
            (get_url web (determine_hosted_filename custom base)
               (case cfg of None \<Rightarrow> None | Some c \<Rightarrow> map_of c ''base_url'')) [],
          w1\<lparr>files := (files w1)(determine_hosted_filename custom base \<mapsto> bytes),
             trace := trace w1 @ [WriteFile (determine_hosted_filename custom base) bytes]\<rparr>)"
  using assms(4-)
  by (simp add: host_artifact_with_context [OF assms(1-3)] process_html_def write_file_def
      Let_def)


theorem invalid_utf8_html_hosted_unchanged_witness:
  "u ''app'' \<noteq> [] \<and> u ''alice'' \<noteq> [] \<and> u ''s1'' \<noteq> []
   \<and> fetch_artifact example_platform example_service (u ''app'') (u ''alice'') (u ''s1'')
        (u ''bad.html'') empty_world
       = (Inr (u ''bad.html'', 2, bad_bytes),
          \<lparr>files = Map.empty,
           trace = [ListVersions (u ''bad.html''), LoadArtifact (u ''bad.html'') 2]\<rparr>)
   \<and> is_html_name (determine_hosted_filename (Some (u ''x'')) (u ''bad.html''))
   \<and> decode bad_bytes = None
   \<and> write_error example_platform (determine_hosted_filename (Some (u ''x'')) (u ''bad.html''))
       = None
   \<and> host_artifact example_platform (Some example_server) (u ''bad.html'') (Some (u ''x''))
        (Some example_context) None empty_world
       = (success_result (u ''bad.html'') 2 (u ''x.html'') (u ''http://127.0.0.1:8080/x.html'') [],
          \<lparr>files = [u ''x.html'' \<mapsto> bad_bytes],
           trace = [ListVersions (u ''bad.html''), LoadArtifact (u ''bad.html'') 2,
                    WriteFile (u ''x.html'') bad_bytes]\<rparr>)"
proof -
  have ne: "u ''app'' \<noteq> []" "u ''alice'' \<noteq> []" "u ''s1'' \<noteq> []" by (simp_all add: u_def)
  have f: "fetch_artifact example_platform example_service (u ''app'') (u ''alice'') (u ''s1'')
        (u ''bad.html'') empty_world
       = (Inr (u ''bad.html'', 2, bad_bytes),
          \<lparr>files = Map.empty,
           trace = [ListVersions (u ''bad.html''), LoadArtifact (u ''bad.html'') 2]\<rparr>)"
    by (simp add: run_defs)
  have h: "determine_hosted_filename (Some (u ''x'')) (u ''bad.html'') = u ''x.html''"
    by (simp add: run_defs)
  have i: "is_html_name (determine_hosted_filename (Some (u ''x'')) (u ''bad.html''))"
    unfolding h by (simp add: run_defs)
  have d: "decode bad_bytes = None" by (simp add: run_defs)
  have w: "write_error example_platform
             (determine_hosted_filename (Some (u ''x'')) (u ''bad.html'')) = None"
    by (simp add: example_platform_def)
  from invalid_utf8_html_hosted_unchanged [OF ne f i d w, of example_server None]
  show ?thesis
    using ne f i d w unfolding h example_context_def
    by (simp add: get_url_def example_server_def str_int_def u_def digit_chars.simps)
qed

subsection \<open>Failures are returned, not raised\<close>

lemma host_artifact_status:
  "map_of (fst (host_artifact pf registry af custom tctx cfg w)) ''status''
     = Some (StrV (u ''success''))
   \<or> (map_of (fst (host_artifact pf registry af custom tctx cfg w)) ''status''
         = Some (StrV (u ''error''))
       \<and> (\<exists>m. map_of (fst (host_artifact pf registry af custom tctx cfg w)) ''message''
                 = Some (StrV m)))"
proof (cases tctx)
  case None
  then show ?thesis by (simp add: host_artifact_def error_result_fields)
next
  case (Some tc)
  show ?thesis
  proof (cases registry)
    case None
    with Some show ?thesis by (simp add: host_artifact_def error_result_fields)
  next
    case (Some web)
    obtain res w1 where t: "host_artifact_try pf web af custom tc cfg w = (res, w1)"
      by (cases "host_artifact_try pf web af custom tc cfg w") auto
    show ?thesis
    proof (cases res)
      case (Inl e)
      with t Some \<open>tctx = Some tc\<close> show ?thesis
        using handle_exception_fields [of e] by (auto simp add: host_artifact_def)
    next
      case (Inr r)
      with t host_artifact_try_Inr [of pf web af custom tc cfg w r w1]
      obtain v url ra where "r = success_result (fst (rsplit_colon af)) v
            (determine_hosted_filename custom (fst (rsplit_colon af))) url ra" by auto
      with t Inr Some \<open>tctx = Some tc\<close> show ?thesis
        by (simp add: host_artifact_def success_result_fields)
    qed
  qed
qed

lemma fetch_list_versions_raises:
  assumes "58 \<notin> set af" "list_versions svc app user sess af = Inl e"
  shows "fetch_artifact pf svc app user sess af w
           = (Inl e, w\<lparr>trace := trace w @ [ListVersions af]\<rparr>)"
  using assms
  by (simp add: fetch_artifact_def rsplit_colon_plain parse_version_def resolve_version_def)

lemma fetch_explicit_version:
  assumes "rsplit_colon af = (base, Some vstr)" "vstr \<noteq> []" "py_int pf vstr = Inr v"
  shows "fetch_artifact pf svc app user sess af w
           = (case load_bytes svc app user sess base v w of
                (Inl e, w2) \<Rightarrow> (Inl e, w2)
              | (Inr bytes, w2) \<Rightarrow> (Inr (base, v, bytes), w2))"
  using assms
  by (simp add: fetch_artifact_def parse_version_def resolve_version_def)

lemma handle_exception_other:
  "(\<forall>m. e \<noteq> FileNotFoundError m) \<Longrightarrow>
     handle_exception e = error_result (u ''An unexpected error occurred: '' @ str_exn e)"
  by (cases e) simp_all

lemma write_failure:
  assumes "app \<noteq> []" "user \<noteq> []" "sess \<noteq> []"
    and "fetch_artifact pf svc app user sess af w = (Inr (base, v, bytes), w1)"
    and "write_error pf (determine_hosted_filename custom base) = Some e"
  shows "\<exists>w2. host_artifact pf (Some web) af custom (Some (context_of app user sess svc)) cfg w
           = (handle_exception e, w2)"
  using assms(4-)
  by (simp add: host_artifact_with_context [OF assms(1-3)] write_file_def Let_def
      split: prod.splits)

lemma bad_html_plain_run:
  "host_artifact example_platform (Some example_server) (u ''bad.html'') None
     (Some example_context) None empty_world
   = (success_result (u ''bad.html'') 2 (u ''bad.html'') (u ''http://127.0.0.1:8080/bad.html'')
        [],
      \<lparr>files = [u ''bad.html'' \<mapsto> bad_bytes],
       trace = [ListVersions (u ''bad.html''), LoadArtifact (u ''bad.html'') 2,
                WriteFile (u ''bad.html'') bad_bytes]\<rparr>)"
  by (simp add: run_defs)

lemma bad_bytes_not_utf8: "decode bad_bytes = None"
  by (simp add: run_defs)

text \<open>
  C6, as the specification states it, fails for an exception raised while the references
  are rewritten: the bytes of \<open>bad.html\<close> make \<open>decode\<close> raise inside the rewriting
  block, and the call does not end in an error result, generic or other; it succeeds.
\<close>

theorem rewrite_exception_counterexample:
  "is_html_name (u ''bad.html'') \<and> decode bad_bytes = None
   \<and> fetch_artifact example_platform example_service (u ''app'') (u ''alice'') (u ''s1'')
        (u ''bad.html'') empty_world
       = (Inr (u ''bad.html'', 2, bad_bytes),
          \<lparr>files = Map.empty,
           trace = [ListVersions (u ''bad.html''), LoadArtifact (u ''bad.html'') 2]\<rparr>)
   \<and> map_of (fst (host_artifact example_platform (Some example_server) (u ''bad.html'') None
                     (Some example_context) None empty_world)) ''status''
       \<noteq> Some (StrV (u ''error''))"
  unfolding bad_html_plain_run
  by (simp add: bad_bytes_not_utf8 success_result_fields u_error_neq_success [symmetric])
    (simp add: run_defs)

text \<open>
  C6, amended. \<open>host_artifact\<close> always returns a result: its status is \<open>success\<close>, or
  it is \<open>error\<close> and there is a message. Without a tool context, and without a registered
  web server, the error result is returned before anything is fetched: the state is
  unchanged. An exception that leaves the fetch or the final write is returned as an error
  result, with \<open>str(e)\<close> as message for a \<open>FileNotFoundError\<close> (no version of the
  artifact, no content for the version) and \<open>An unexpected error occurred: \<close> followed by
  \<open>str(e)\<close> for any other exception (the service raising in \<open>list_versions\<close> or
  \<open>load_artifact\<close>, \<open>int\<close> raising on the version suffix, the write failing). An
  exception during the rewriting of references is absorbed there, and the call succeeds.
\<close>

theorem host_artifact_returns_results:
  "host_artifact pf registry af custom None cfg w
     = (error_result (u ''ToolContext is required''), w)
   \<and> host_artifact pf None af custom (Some tc) cfg w
     = (error_result (u ''Web server is not running. Please check agent configuration.''), w)
   \<and> (map_of (fst (host_artifact pf registry af custom tctx cfg w)) ''status''
         = Some (StrV (u ''success''))
       \<or> (map_of (fst (host_artifact pf registry af custom tctx cfg w)) ''status''
             = Some (StrV (u ''error''))
           \<and> (\<exists>m. map_of (fst (host_artifact pf registry af custom tctx cfg w)) ''message''
                     = Some (StrV m))))
   \<and> (app \<noteq> [] \<and> user \<noteq> [] \<and> sess \<noteq> []
        \<and> fetch_artifact pf svc app user sess af w = (Inl e, w1) \<longrightarrow>
       host_artifact pf (Some web) af custom (Some (context_of app user sess svc)) cfg w
         = (handle_exception e, w1))
   \<and> (app \<noteq> [] \<and> user \<noteq> [] \<and> sess \<noteq> []
        \<and> fetch_artifact pf svc app user sess af w = (Inr (base, v, bytes), w1)
        \<and> write_error pf (determine_hosted_filename custom base) = Some e \<longrightarrow>
       (\<exists>w2. host_artifact pf (Some web) af custom (Some (context_of app user sess svc)) cfg w
               = (handle_exception e, w2)))
   \<and> handle_exception (FileNotFoundError m) = error_result m
   \<and> ((\<forall>m. e \<noteq> FileNotFoundError m) \<longrightarrow>
        handle_exception e = error_result (u ''An unexpected error occurred: '' @ str_exn e))
   \<and> (58 \<notin> set af \<and> list_versions svc app user sess af = Inl e \<longrightarrow>
        fetch_artifact pf svc app user sess af w
          = (Inl e, w\<lparr>trace := trace w @ [ListVersions af]\<rparr>))
   \<and> (58 \<notin> set af \<and> list_versions svc app user sess af = Inr [] \<longrightarrow>
        fetch_artifact pf svc app user sess af w
          = (Inl (FileNotFoundError (not_found_message af)),
             w\<lparr>trace := trace w @ [ListVersions af]\<rparr>))
   \<and> (rsplit_colon af = (base, Some vstr) \<and> vstr \<noteq> [] \<and> py_int pf vstr = Inr v
        \<and> load_artifact svc app user sess base v = Inr None \<longrightarrow>
        fetch_artifact pf svc app user sess af w
          = (Inl (FileNotFoundError (content_not_found_message base v)),
             w\<lparr>trace := trace w @ [LoadArtifact base v]\<rparr>))
   \<and> (rsplit_colon af = (base, Some vstr) \<and> vstr \<noteq> [] \<and> py_int pf vstr = Inr v
        \<and> load_artifact svc app user sess base v = Inl e \<longrightarrow>
        fetch_artifact pf svc app user sess af w
          = (Inl e, w\<lparr>trace := trace w @ [LoadArtifact base v]\<rparr>))
   \<and> (rsplit_colon af = (base, Some vstr) \<and> vstr \<noteq> [] \<and> py_int pf vstr = Inl e \<longrightarrow>
        fetch_artifact pf svc app user sess af w = (Inl e, w))
   \<and> (app \<noteq> [] \<and> user \<noteq> [] \<and> sess \<noteq> []
        \<and> fetch_artifact pf svc app user sess af w = (Inr (base, v, bytes), w1)
        \<and> is_html_name (determine_hosted_filename custom base)
        \<and> decode bytes = None
        \<and> write_error pf (determine_hosted_filename custom base) = None \<longrightarrow>
       map_of (fst (host_artifact pf (Some web) af custom (Some (context_of app user sess svc))
                      cfg w)) ''status''
         = Some (StrV (u ''success'')))"
proof (intro conjI impI)
  show "host_artifact pf registry af custom None cfg w
     = (error_result (u ''ToolContext is required''), w)"
    by (simp add: host_artifact_def)
  show "host_artifact pf None af custom (Some tc) cfg w
     = (error_result (u ''Web server is not running. Please check agent configuration.''), w)"
    by (simp add: host_artifact_def)
  show "map_of (fst (host_artifact pf registry af custom tctx cfg w)) ''status''
         = Some (StrV (u ''success''))
       \<or> (map_of (fst (host_artifact pf registry af custom tctx cfg w)) ''status''
             = Some (StrV (u ''error''))
           \<and> (\<exists>m. map_of (fst (host_artifact pf registry af custom tctx cfg w)) ''message''
                     = Some (StrV m)))"
    by (rule host_artifact_status)
  show "handle_exception (FileNotFoundError m) = error_result m" by simp
  show "handle_exception e = error_result (u ''An unexpected error occurred: '' @ str_exn e)"
    if "\<forall>m. e \<noteq> FileNotFoundError m" using that by (rule handle_exception_other)
  show "host_artifact pf (Some web) af custom (Some (context_of app user sess svc)) cfg w
         = (handle_exception e, w1)"
    if "app \<noteq> [] \<and> user \<noteq> [] \<and> sess \<noteq> []
        \<and> fetch_artifact pf svc app user sess af w = (Inl e, w1)"
    using that by (simp add: host_artifact_with_context)
  show "\<exists>w2. host_artifact pf (Some web) af custom (Some (context_of app user sess svc)) cfg w
               = (handle_exception e, w2)"
    if "app \<noteq> [] \<and> user \<noteq> [] \<and> sess \<noteq> []
        \<and> fetch_artifact pf svc app user sess af w = (Inr (base, v, bytes), w1)
        \<and> write_error pf (determine_hosted_filename custom base) = Some e"
    using that write_failure by blast
  show "fetch_artifact pf svc app user sess af w
          = (Inl e, w\<lparr>trace := trace w @ [ListVersions af]\<rparr>)"
    if "58 \<notin> set af \<and> list_versions svc app user sess af = Inl e"
    using that fetch_list_versions_raises by blast
  show "fetch_artifact pf svc app user sess af w
          = (Inl (FileNotFoundError (not_found_message af)),
             w\<lparr>trace := trace w @ [ListVersions af]\<rparr>)"
    if "58 \<notin> set af \<and> list_versions svc app user sess af = Inr []"
    using that fetch_no_versions by blast
  show "fetch_artifact pf svc app user sess af w
          = (Inl (FileNotFoundError (content_not_found_message base v)),
             w\<lparr>trace := trace w @ [LoadArtifact base v]\<rparr>)"
    if "rsplit_colon af = (base, Some vstr) \<and> vstr \<noteq> [] \<and> py_int pf vstr = Inr v
        \<and> load_artifact svc app user sess base v = Inr None"
    using that by (simp add: fetch_explicit_version [of af base vstr pf v] load_bytes_def)
  show "fetch_artifact pf svc app user sess af w
          = (Inl e, w\<lparr>trace := trace w @ [LoadArtifact base v]\<rparr>)"
    if "rsplit_colon af = (base, Some vstr) \<and> vstr \<noteq> [] \<and> py_int pf vstr = Inr v
        \<and> load_artifact svc app user sess base v = Inl e"
    using that by (simp add: fetch_explicit_version [of af base vstr pf v] load_bytes_def)
  show "fetch_artifact pf svc app user sess af w = (Inl e, w)"
    if "rsplit_colon af = (base, Some vstr) \<and> vstr \<noteq> [] \<and> py_int pf vstr = Inl e"
    using that by (simp add: fetch_artifact_def parse_version_def)
  show "map_of (fst (host_artifact pf (Some web) af custom (Some (context_of app user sess svc))
                      cfg w)) ''status''
         = Some (StrV (u ''success''))"
    if "app \<noteq> [] \<and> user \<noteq> [] \<and> sess \<noteq> []
        \<and> fetch_artifact pf svc app user sess af w = (Inr (base, v, bytes), w1)
        \<and> is_html_name (determine_hosted_filename custom base)
        \<and> decode bytes = None
        \<and> write_error pf (determine_hosted_filename custom base) = None"
    using that
    by (simp add: host_artifact_with_context process_html_def write_file_def Let_def
        success_result_fields)
qed

lemma down_fetch:
  "58 \<notin> set (u ''down.bin'')
   \<and> list_versions example_service (u ''app'') (u ''alice'') (u ''s1'') (u ''down.bin'')
       = Inl (Exception (u ''backend down''))"
  by (simp add: example_service_def u_def)

lemma old_page_fetch:
  "rsplit_colon (u ''page.html:2'') = (u ''page.html'', Some (u ''2'')) \<and> u ''2'' \<noteq> []
   \<and> py_int example_platform (u ''2'') = Inr 2
   \<and> load_artifact example_service (u ''app'') (u ''alice'') (u ''s1'') (u ''page.html'') 2
       = Inr None"
  by (simp add: example_service_def example_platform_def rsplit_colon_def u_def)

lemma photo_fetch:
  "fetch_artifact full_disk_platform example_service (u ''app'') (u ''alice'') (u ''s1'')
     (u ''photo.jpg'') empty_world
   = (Inr (u ''photo.jpg'', 1, ''JPEG''),
      \<lparr>files = Map.empty,
       trace = [ListVersions (u ''photo.jpg''), LoadArtifact (u ''photo.jpg'') 1]\<rparr>)
   \<and> write_error full_disk_platform (determine_hosted_filename None (u ''photo.jpg''))
       = Some (Exception (u ''[Errno 28] No space left on device''))"
  by (simp add: full_disk_platform_def run_defs)

lemma names_nonempty: "u ''app'' \<noteq> [] \<and> u ''alice'' \<noteq> [] \<and> u ''s1'' \<noteq> []"
  by (simp add: u_def)

theorem host_artifact_returns_results_witness:
  "host_artifact example_platform (Some example_server) (u ''page.html'') None None None
     empty_world
     = (error_result (u ''ToolContext is required''), empty_world)
   \<and> (58 \<notin> set (u ''down.bin'')
       \<and> list_versions example_service (u ''app'') (u ''alice'') (u ''s1'') (u ''down.bin'')
           = Inl (Exception (u ''backend down'')))
   \<and> host_artifact example_platform (Some example_server) (u ''down.bin'') None
        (Some example_context) None empty_world
       = (error_result (u ''An unexpected error occurred: backend down''),
          \<lparr>files = Map.empty, trace = [ListVersions (u ''down.bin'')]\<rparr>)
   \<and> (rsplit_colon (u ''page.html:2'') = (u ''page.html'', Some (u ''2'')) \<and> u ''2'' \<noteq> []
       \<and> py_int example_platform (u ''2'') = Inr 2
       \<and> load_artifact example_service (u ''app'') (u ''alice'') (u ''s1'') (u ''page.html'') 2
           = Inr None)
   \<and> host_artifact example_platform (Some example_server) (u ''page.html:2'') None
        (Some example_context) None empty_world
       = (error_result (u ''Content for '' @ [39] @ u ''page.html'' @ [39] @ u '' v2 not found.''),
          \<lparr>files = Map.empty, trace = [LoadArtifact (u ''page.html'') 2]\<rparr>)
   \<and> (fetch_artifact full_disk_platform example_service (u ''app'') (u ''alice'') (u ''s1'')
         (u ''photo.jpg'') empty_world
        = (Inr (u ''photo.jpg'', 1, ''JPEG''),
           \<lparr>files = Map.empty,
            trace = [ListVersions (u ''photo.jpg''), LoadArtifact (u ''photo.jpg'') 1]\<rparr>)
       \<and> write_error full_disk_platform (determine_hosted_filename None (u ''photo.jpg''))
           = Some (Exception (u ''[Errno 28] No space left on device'')))
   \<and> fst (host_artifact full_disk_platform (Some example_server) (u ''photo.jpg'') None
             (Some example_context) None empty_world)
       = error_result (u ''An unexpected error occurred: [Errno 28] No space left on device'')"
proof -
  note ne = names_nonempty
  note t = host_artifact_returns_results
  have c1: "host_artifact example_platform (Some example_server) (u ''page.html'') None None None
     empty_world = (error_result (u ''ToolContext is required''), empty_world)"
    using t [where pf = example_platform and registry = "Some example_server"
        and af = "u ''page.html''" and custom = None and cfg = None and w = empty_world]
    by blast
  have f2: "fetch_artifact example_platform example_service (u ''app'') (u ''alice'') (u ''s1'')
         (u ''down.bin'') empty_world
       = (Inl (Exception (u ''backend down'')),
          empty_world\<lparr>trace := trace empty_world @ [ListVersions (u ''down.bin'')]\<rparr>)"
    using down_fetch
      t [where pf = example_platform and af = "u ''down.bin''" and svc = example_service
        and app = "u ''app''" and user = "u ''alice''" and sess = "u ''s1''"
        and e = "Exception (u ''backend down'')" and w = empty_world]
    by blast
  have c2: "host_artifact example_platform (Some example_server) (u ''down.bin'') None
        (Some example_context) None empty_world
       = (handle_exception (Exception (u ''backend down'')),
          empty_world\<lparr>trace := trace empty_world @ [ListVersions (u ''down.bin'')]\<rparr>)"
    using ne f2
      t [where pf = example_platform and af = "u ''down.bin''" and svc = example_service
        and app = "u ''app''" and user = "u ''alice''" and sess = "u ''s1''"
        and e = "Exception (u ''backend down'')" and w = empty_world
        and web = example_server and custom = None and cfg = None
        and ?w1.0 = "empty_world\<lparr>trace := trace empty_world @ [ListVersions (u ''down.bin'')]\<rparr>"]
    unfolding example_context_def by blast
  have f3: "fetch_artifact example_platform example_service (u ''app'') (u ''alice'') (u ''s1'')
         (u ''page.html:2'') empty_world
       = (Inl (FileNotFoundError (content_not_found_message (u ''page.html'') 2)),
          empty_world\<lparr>trace := trace empty_world @ [LoadArtifact (u ''page.html'') 2]\<rparr>)"
    using old_page_fetch
      t [where pf = example_platform and af = "u ''page.html:2''" and svc = example_service
        and app = "u ''app''" and user = "u ''alice''" and sess = "u ''s1''"
        and base = "u ''page.html''" and vstr = "u ''2''" and v = 2 and w = empty_world]
    by blast
  have c3: "host_artifact example_platform (Some example_server) (u ''page.html:2'') None
        (Some example_context) None empty_world
       = (handle_exception (FileNotFoundError (content_not_found_message (u ''page.html'') 2)),
          empty_world\<lparr>trace := trace empty_world @ [LoadArtifact (u ''page.html'') 2]\<rparr>)"
    using ne f3
      t [where pf = example_platform and af = "u ''page.html:2''" and svc = example_service
        and app = "u ''app''" and user = "u ''alice''" and sess = "u ''s1''"
        and e = "FileNotFoundError (content_not_found_message (u ''page.html'') 2)"
        and w = empty_world and web = example_server and custom = None and cfg = None
        and ?w1.0 = "empty_world\<lparr>trace := trace empty_world @ [LoadArtifact (u ''page.html'') 2]\<rparr>"]
    unfolding example_context_def by blast
  have c4: "\<exists>w2. host_artifact full_disk_platform (Some example_server) (u ''photo.jpg'') None
        (Some example_context) None empty_world
       = (handle_exception (Exception (u ''[Errno 28] No space left on device'')), w2)"
    using ne photo_fetch
      t [where pf = full_disk_platform and af = "u ''photo.jpg''" and svc = example_service
        and app = "u ''app''" and user = "u ''alice''" and sess = "u ''s1''"
        and e = "Exception (u ''[Errno 28] No space left on device'')"
        and base = "u ''photo.jpg''" and v = 1 and bytes = "''JPEG''"
        and w = empty_world and web = example_server and custom = None and cfg = None
        and ?w1.0 = "\<lparr>files = Map.empty,
            trace = [ListVersions (u ''photo.jpg''), LoadArtifact (u ''photo.jpg'') 1]\<rparr>"]
    unfolding example_context_def by blast
  from c4 have c4': "fst (host_artifact full_disk_platform (Some example_server) (u ''photo.jpg'')
        None (Some example_context) None empty_world)
       = handle_exception (Exception (u ''[Errno 28] No space left on device''))"
    by auto
  show ?thesis
    using c1 c2 c3 c4' down_fetch old_page_fetch photo_fetch
    by (simp add: empty_world_def content_not_found_message_def error_result_def str_int_def
        digit_chars.simps u_def)
qed

section \<open>Properties of the directory listing and of \<open>start\<close>\<close>

subsection \<open>The size display\<close>

lemma round_half_even_near:
  assumes "0 < b"
  shows "2 * (a - round_half_even a b * b) \<le> b \<and> 2 * (round_half_even a b * b - a) \<le> b"
proof -
  define q r where "q = a div b" and "r = a mod b"
  define qb where "qb = q * b"
  have a: "a = qb + r" and r: "r < b"
    using assms by (simp_all add: q_def r_def qb_def)
  have c: "round_half_even a b = q \<or> round_half_even a b = q + 1"
    by (simp add: round_half_even_def q_def r_def Let_def)
  have lo: "round_half_even a b = q \<Longrightarrow> 2 * r \<le> b"
    by (auto simp add: round_half_even_def q_def r_def Let_def split: if_splits)
  have hi: "round_half_even a b = q + 1 \<Longrightarrow> b \<le> 2 * r"
    by (auto simp add: round_half_even_def q_def r_def Let_def split: if_splits)
  from c show ?thesis
  proof
    assume e: "round_half_even a b = q"
    then have "round_half_even a b * b = qb" by (simp add: qb_def)
    with a lo [OF e] show ?thesis by simp
  next
    assume e: "round_half_even a b = q + 1"
    then have "round_half_even a b * b = qb + b" by (simp add: qb_def)
    with a hi [OF e] r show ?thesis by simp
  qed
qed

lemma bit_length_le: "n < 2 ^ k \<Longrightarrow> bit_length n \<le> k"
proof (induction k arbitrary: n)
  case 0
  then show ?case by (simp add: bit_length.simps)
next
  case (Suc k)
  then have "n div 2 < 2 ^ k" by simp
  from Suc.IH [OF this] show ?case by (subst bit_length.simps) simp
qed

lemma bit_length_lower: "0 < n \<Longrightarrow> 2 ^ (bit_length n - 1) \<le> n"
proof (induction n rule: bit_length.induct)
  case (1 n)
  show ?case
  proof (cases "n div 2 = 0")
    case True
    then have "bit_length (n div 2) = 0" by (simp add: bit_length.simps)
    with 1 show ?thesis by (subst bit_length.simps) simp
  next
    case False
    with 1 have ih: "2 ^ (bit_length (n div 2) - 1) \<le> n div 2" by simp
    from False have pos: "0 < bit_length (n div 2)" by (subst bit_length.simps) simp
    have "bit_length n = Suc (bit_length (n div 2))"
      using 1(2) by (subst bit_length.simps) simp
    then have "2 ^ (bit_length n - 1) = 2 * 2 ^ (bit_length (n div 2) - 1)"
      using pos by (cases "bit_length (n div 2)") simp_all
    also have "\<dots> \<le> 2 * (n div 2)" using ih by simp
    also have "\<dots> \<le> n" by simp
    finally show ?thesis .
  qed
qed

lemma round_half_even_ge: "a div b \<le> round_half_even a b"
  by (simp add: round_half_even_def Let_def)

lemma to_double_exact: "n < 2 ^ 53 \<Longrightarrow> to_double n = n"
  using bit_length_le [of n 53] by (simp add: to_double_def round_half_even_def)

lemma to_double_large:
  assumes "2 ^ 53 \<le> n"
  shows "2 ^ 52 \<le> to_double n"
proof (cases "bit_length n \<le> 53")
  case True
  then have "to_double n = n" by (simp add: to_double_def round_half_even_def)
  moreover have "(2::nat) ^ 52 \<le> 2 ^ 53" by simp
  ultimately show ?thesis using assms by linarith
next
  case False
  define e where "e = bit_length n - 53"
  have pos: "0 < n" using assms by (rule order_less_le_trans [rotated]) simp
  from False have bl: "bit_length n - 1 = 52 + e" by (simp add: e_def)
  from bit_length_lower [OF pos] have "2 ^ 52 * 2 ^ e \<le> n"
    unfolding bl by (simp add: power_add)
  then have "2 ^ 52 \<le> n div 2 ^ e"
    by (simp add: less_eq_div_iff_mult_less_eq)
  also have "\<dots> \<le> round_half_even n (2 ^ e)" by (rule round_half_even_ge)
  also have "\<dots> \<le> round_half_even n (2 ^ e) * 2 ^ e" by simp
  finally show ?thesis by (simp add: to_double_def e_def Let_def)
qed

lemma ge_one_mb: "ge_one (true_div_pow2 n 20) \<longleftrightarrow> 1048576 \<le> n"
proof (cases "n < 2 ^ 53")
  case True
  then show ?thesis by (simp add: ge_one_def true_div_pow2_def to_double_exact)
next
  case False
  then have l: "2 ^ 53 \<le> n" by simp
  have "(1048576::nat) \<le> 2 ^ 52" by simp
  with to_double_large [OF l] have "1048576 \<le> to_double n" by linarith
  moreover have "(1048576::nat) \<le> 2 ^ 53" by simp
  with l have "1048576 \<le> n" by linarith
  ultimately show ?thesis by (simp add: ge_one_def true_div_pow2_def)
qed

text \<open>
  C8. The listing shows a file of \<open>n\<close> bytes in MB when \<open>n\<close> is at least 1048576 and in KB
  otherwise. The number shown has two decimals and is the nearest number of hundredths to
  the size divided by 1048576, respectively by 1024 (for sizes below \<open>2 ^ 53\<close> bytes, which a
  double holds exactly; above, the size is first rounded to a double). A file of 1048576
  bytes is shown as \<open>1.00 MB\<close>, one of 2048 bytes as \<open>2.00 KB\<close>.
\<close>

theorem size_display_format:
  "(1048576 \<le> n \<longrightarrow>
      size_display n = two_decimals (round_half_even (100 * to_double n) 1048576) @ u '' MB''
      \<and> (n < 2 ^ 53 \<longrightarrow>
           to_double n = n
           \<and> 2 * (100 * n - round_half_even (100 * n) 1048576 * 1048576) \<le> 1048576
           \<and> 2 * (round_half_even (100 * n) 1048576 * 1048576 - 100 * n) \<le> 1048576))
   \<and> (n < 1048576 \<longrightarrow>
      size_display n = two_decimals (round_half_even (100 * n) 1024) @ u '' KB''
      \<and> 2 * (100 * n - round_half_even (100 * n) 1024 * 1024) \<le> 1024
      \<and> 2 * (round_half_even (100 * n) 1024 * 1024 - 100 * n) \<le> 1024)
   \<and> size_display 1048576 = u ''1.00 MB''
   \<and> size_display 2048 = u ''2.00 KB''"
proof (intro conjI impI)
  show "size_display n = two_decimals (round_half_even (100 * to_double n) 1048576) @ u '' MB''"
    if "1048576 \<le> n"
  proof -
    from that have "ge_one (true_div_pow2 n 20)" by (simp add: ge_one_mb)
    then show ?thesis
      unfolding size_display_def Let_def by (simp add: format_2f_def true_div_pow2_def)
  qed
  show "to_double n = n" if "n < 2 ^ 53" using that by (rule to_double_exact)
  show "2 * (100 * n - round_half_even (100 * n) 1048576 * 1048576) \<le> 1048576"
    using round_half_even_near [of 1048576 "100 * n"] by simp
  show "2 * (round_half_even (100 * n) 1048576 * 1048576 - 100 * n) \<le> 1048576"
    using round_half_even_near [of 1048576 "100 * n"] by simp
  show "2 * (100 * n - round_half_even (100 * n) 1024 * 1024) \<le> 1024"
    using round_half_even_near [of 1024 "100 * n"] by simp
  show "2 * (round_half_even (100 * n) 1024 * 1024 - 100 * n) \<le> 1024"
    using round_half_even_near [of 1024 "100 * n"] by simp
  show "size_display n = two_decimals (round_half_even (100 * n) 1024) @ u '' KB''"
    if "n < 1048576"
  proof -
    from that have "n < 2 ^ 53" by simp
    then have d: "to_double n = n" by (rule to_double_exact)
    from that have "\<not> ge_one (true_div_pow2 n 20)" by (simp add: ge_one_mb)
    then show ?thesis
      unfolding size_display_def Let_def by (simp add: format_2f_def true_div_pow2_def d)
  qed
  have e1: "to_double 1048576 = 1048576" and e2: "to_double 2048 = 2048"
    by (simp_all add: to_double_exact)
  show "size_display 1048576 = u ''1.00 MB''"
    by (simp add: size_display_def ge_one_def format_2f_def true_div_pow2_def e1
        round_half_even_def two_decimals_def digit_chars.simps u_def)
  show "size_display 2048 = u ''2.00 KB''"
    by (simp add: size_display_def ge_one_def format_2f_def true_div_pow2_def e2
        round_half_even_def two_decimals_def digit_chars.simps u_def)
qed

theorem size_display_format_witness:
  "(1048576::nat) \<le> 5242881 \<and> (5242881::nat) < 2 ^ 53
   \<and> size_display 5242881 = u ''5.00 MB''
   \<and> (1536::nat) < 1048576 \<and> size_display 1536 = u ''1.50 KB''
   \<and> (128::nat) < 1048576 \<and> size_display 128 = u ''0.12 KB''"
  using size_display_format [of 5242881] size_display_format [of 1536]
    size_display_format [of 128]
  by (simp add: to_double_exact round_half_even_def two_decimals_def digit_chars.simps u_def)

subsection \<open>Starting twice\<close>

text \<open>
  C9. When the server thread is alive, \<open>start\<close> only writes the warning
  \<open>Server is already running\<close>: it returns normally, whether or not a thread could be
  started, the server object and the threads are as before, and so is the number of alive
  threads. So two calls in a row on a server that had no thread (no thread ending in
  between) start one thread: after the first call and after the second there is one alive
  thread more than before, the one the server holds.
\<close>

theorem start_idempotent:
  "(server_thread self = Some t \<and> is_alive p t \<longrightarrow>
      start self p
        = Inr (self, p\<lparr>log := log p
                  @ [(WARNING, u ''[ArtifactWebServer] Server is already running'')]\<rparr>))
   \<and> (server_thread self = Some t \<and> is_alive p t \<and> start self p = Inr (self', p') \<longrightarrow>
      self' = self \<and> threads p' = threads p \<and> alive_threads p' = alive_threads p
      \<and> is_alive p' t)
   \<and> (server_thread self = None \<and> can_start_thread p \<longrightarrow>
      (\<exists>self1 p1 t1.
         start self p = Inr (self1, p1)
         \<and> server_thread self1 = Some t1 \<and> is_alive p1 t1
         \<and> alive_threads p1 = alive_threads p + 1
         \<and> start self1 p1
             = Inr (self1, p1\<lparr>log := log p1
                      @ [(WARNING, u ''[ArtifactWebServer] Server is already running'')]\<rparr>)
         \<and> alive_threads (p1\<lparr>log := log p1
                      @ [(WARNING, u ''[ArtifactWebServer] Server is already running'')]\<rparr>)
             = alive_threads p + 1))"
proof (intro conjI impI)
  show "start self p
        = Inr (self, p\<lparr>log := log p
                  @ [(WARNING, u ''[ArtifactWebServer] Server is already running'')]\<rparr>)"
    if "server_thread self = Some t \<and> is_alive p t"
    using that by (simp add: start_def)
  assume a: "server_thread self = Some t \<and> is_alive p t \<and> start self p = Inr (self', p')"
  then have e: "self' = self"
    "p' = p\<lparr>log := log p @ [(WARNING, u ''[ArtifactWebServer] Server is already running'')]\<rparr>"
    by (auto simp add: start_def)
  show "self' = self" by (rule e)
  show "threads p' = threads p" by (simp add: e)
  show "alive_threads p' = alive_threads p" by (simp add: e alive_threads_def)
  show "is_alive p' t" using a by (simp add: e is_alive_def)
next
  assume a: "server_thread self = None \<and> can_start_thread p"
  define t1 where "t1 = length (threads p)"
  define self1 where "self1 = self\<lparr>server_thread := Some t1\<rparr>"
  define p1 where "p1 = p\<lparr>threads := threads p @ [True],
       log := log p @ [(INFO, u ''[ArtifactWebServer] Server started on http://''
                              @ host self @ u '':'' @ str_int (port self))]\<rparr>"
  have s: "start self p = Inr (self1, p1)"
    using a by (simp add: start_def spawn_server_def self1_def p1_def t1_def)
  have al: "is_alive p1 t1" by (simp add: p1_def t1_def is_alive_def)
  have st: "server_thread self1 = Some t1" by (simp add: self1_def)
  have n: "alive_threads p1 = alive_threads p + 1" by (simp add: p1_def alive_threads_def)
  have s2: "start self1 p1
             = Inr (self1, p1\<lparr>log := log p1
                      @ [(WARNING, u ''[ArtifactWebServer] Server is already running'')]\<rparr>)"
    using al st by (simp add: start_def)
  have n2: "alive_threads (p1\<lparr>log := log p1
                      @ [(WARNING, u ''[ArtifactWebServer] Server is already running'')]\<rparr>)
             = alive_threads p + 1"
    using n by (simp add: alive_threads_def)
  show "\<exists>self1 p1 t1.
         start self p = Inr (self1, p1)
         \<and> server_thread self1 = Some t1 \<and> is_alive p1 t1
         \<and> alive_threads p1 = alive_threads p + 1
         \<and> start self1 p1
             = Inr (self1, p1\<lparr>log := log p1
                      @ [(WARNING, u ''[ArtifactWebServer] Server is already running'')]\<rparr>)
         \<and> alive_threads (p1\<lparr>log := log p1
                      @ [(WARNING, u ''[ArtifactWebServer] Server is already running'')]\<rparr>)
             = alive_threads p + 1"
    using s al st n s2 n2 by blast
qed

theorem start_idempotent_witness:
  "server_thread example_server = None \<and> can_start_thread fresh_process
   \<and> start example_server fresh_process
       = Inr (example_server\<lparr>server_thread := Some 0\<rparr>,
              \<lparr>threads = [True], can_start_thread = True,
               log = [(INFO, u ''[ArtifactWebServer] Server started on http://127.0.0.1:8080'')]\<rparr>)
   \<and> server_thread (example_server\<lparr>server_thread := Some 0\<rparr>) = Some 0
   \<and> is_alive \<lparr>threads = [True], can_start_thread = False, log = []\<rparr> 0
   \<and> start (example_server\<lparr>server_thread := Some 0\<rparr>)
        \<lparr>threads = [True], can_start_thread = False, log = []\<rparr>
       = Inr (example_server\<lparr>server_thread := Some 0\<rparr>,
              \<lparr>threads = [True], can_start_thread = False,
               log = [(WARNING, u ''[ArtifactWebServer] Server is already running'')]\<rparr>)
   \<and> alive_threads \<lparr>threads = [True], can_start_thread = False,
        log = [(WARNING, u ''[ArtifactWebServer] Server is already running'')]\<rparr> = 1"
  using start_idempotent [of "example_server\<lparr>server_thread := Some 0\<rparr>" 0
      "\<lparr>threads = [True], can_start_thread = False, log = []\<rparr>"]
    start_idempotent [of example_server _ fresh_process]
  by (simp add: is_alive_def alive_threads_def example_server_def fresh_process_def)
    (simp add: start_def spawn_server_def str_int_def digit_chars.simps u_def)

section \<open>Properties of the reference scanner\<close>

subsection \<open>The patterns on a well-formed page\<close>

lemma marker_facts:
  "marker \<noteq> []" "hd marker = laquo" "raquo \<notin> set marker" "rsaquo \<notin> set marker"
  "length marker = 18"
  by (simp_all add: marker_def u_def laquo_def raquo_def rsaquo_def)

lemma arrows_facts: "length (u ''>>>'') = 3" "u ''>>>'' = [62, 62, 62]"
  by (simp_all add: u_def)

lemma special_chars:
  "\<not> is_space 62" "\<not> is_space raquo" "\<not> is_space rsaquo" "raquo \<noteq> 62" "rsaquo \<noteq> 62"
  "raquo \<noteq> laquo" "rsaquo \<noteq> raquo"
  by (simp_all add: is_space_def raquo_def rsaquo_def laquo_def)

lemma match_at_not_laquo: "c \<noteq> laquo \<Longrightarrow> match_at rest (c # cs) = None"
  by (simp add: match_at_def startswith_def marker_def)

lemma findall_text: "laquo \<notin> set t \<Longrightarrow> findall (match_at rest) (t @ X) = findall (match_at rest) X"
  by (induction t) (simp_all add: match_at_not_laquo)

lemma sub_text:
  "laquo \<notin> set t \<Longrightarrow> sub (match_at rest) repl (t @ X) = t @ sub (match_at rest) repl X"
  by (induction t) (simp_all add: match_at_not_laquo)

lemma backtrack_found:
  "\<lbrakk>1 \<le> g; g \<le> G; rest (drop g r) = Some n;
    \<forall>k. g < k \<and> k \<le> G \<longrightarrow> rest (drop k r) = None\<rbrakk>
   \<Longrightarrow> backtrack_group rest r G = Some (g, n)"
proof (induction G)
  case 0
  then show ?case by simp
next
  case (Suc G)
  show ?case
  proof (cases "g = Suc G")
    case True
    with Suc.prems show ?thesis by simp
  next
    case False
    with Suc.prems have "g \<le> G" "rest (drop (Suc G) r) = None" by auto
    with Suc show ?thesis by simp
  qed
qed

lemma backtrack_none:
  "\<forall>k. 1 \<le> k \<and> k \<le> G \<longrightarrow> rest (drop k r) = None \<Longrightarrow> backtrack_group rest r G = None"
  by (induction G) simp_all

lemma match_arrows_Nil: "match_arrows [] = None"
  by (simp add: match_arrows_def startswith_def u_def)

lemma match_arrows_Cons:
  "match_arrows (a # x) =
     (if is_space a then map_option Suc (match_arrows x)
      else if startswith (a # x) (u ''>>>'') then Some 3 else None)"
  by (simp add: match_arrows_def Let_def)

lemma no_arrows:
  "62 \<notin> set y \<Longrightarrow> c \<noteq> 62 \<Longrightarrow> \<not> is_space c \<Longrightarrow> match_arrows (y @ c # z) = None"
proof (induction y)
  case Nil
  then show ?case by (simp add: match_arrows_Cons startswith_def arrows_facts)
next
  case (Cons a y)
  then show ?case by (simp add: match_arrows_Cons startswith_def arrows_facts)
qed

lemma no_arrows_drop:
  assumes "62 \<notin> set y" "c \<noteq> 62" "\<not> is_space c" "k \<le> length y"
  shows "match_arrows (drop k (y @ c # z)) = None"
proof -
  have "drop k (y @ c # z) = drop k y @ c # z" using assms(4) by simp
  moreover have "62 \<notin> set (drop k y)" using assms(1) by (auto dest: in_set_dropD)
  ultimately show ?thesis using no_arrows assms(2,3) by simp
qed

lemma takeWhile_stop_length:
  "\<not> P c \<Longrightarrow> length (takeWhile P (y @ c # z)) \<le> length y"
  by (induction y) simp_all


lemma startswith_append: "startswith (p @ x) p"
  by (simp add: startswith_def)

lemma run_length_token:
  assumes "rsaquo \<notin> set name" "raquo \<notin> set name"
  shows "length name + 3 \<le> length (takeWhile (\<lambda>c. c \<noteq> rsaquo \<and> c \<noteq> raquo)
            (name @ u ''>>>'' @ trailer @ raquo # X))"
    and "length (takeWhile (\<lambda>c. c \<noteq> rsaquo \<and> c \<noteq> raquo)
            (name @ u ''>>>'' @ trailer @ raquo # X)) \<le> length name + 3 + length trailer"
proof -
  let ?P = "\<lambda>c. c \<noteq> rsaquo \<and> c \<noteq> raquo"
  have a: "\<forall>c\<in>set (name @ u ''>>>''). ?P c"
    using assms special_chars by (auto simp add: arrows_facts)
  have "takeWhile ?P ((name @ u ''>>>'') @ trailer @ raquo # X)
          = (name @ u ''>>>'') @ takeWhile ?P (trailer @ raquo # X)"
    by (rule takeWhile_append2) (use a in blast)
  then have e: "takeWhile ?P (name @ u ''>>>'' @ trailer @ raquo # X)
          = name @ u ''>>>'' @ takeWhile ?P (trailer @ raquo # X)" by simp
  show "length name + 3 \<le> length (takeWhile ?P (name @ u ''>>>'' @ trailer @ raquo # X))"
    unfolding e by (simp add: arrows_facts)
  have "length (takeWhile ?P (trailer @ raquo # X)) \<le> length trailer"
    by (rule takeWhile_stop_length) simp
  then show "length (takeWhile ?P (name @ u ''>>>'' @ trailer @ raquo # X))
               \<le> length name + 3 + length trailer"
    unfolding e by (simp add: arrows_facts)
qed

lemma after_name_no_match:
  assumes "raquo \<notin> set trailer" "62 \<notin> set trailer"
    and "length name < k" "k \<le> length name + 3 + length trailer"
  shows "match_arrows (drop k (name @ u ''>>>'' @ trailer @ raquo # X)) = None"
proof -
  define j where "j = k - length name"
  have j: "0 < j" "j \<le> 3 + length trailer" and k: "k = length name + j"
    using assms(3,4) by (simp_all add: j_def)
  have d: "drop k (name @ u ''>>>'' @ trailer @ raquo # X)
             = drop j ([62, 62, 62] @ trailer @ raquo # X)"
    unfolding k by (simp add: arrows_facts)
  have hd_ne: "hd (trailer @ raquo # X) \<noteq> 62"
    using assms(2) special_chars by (cases trailer) auto
  consider "j = 1" | "j = 2" | "3 \<le> j" using j(1) by linarith
  then show ?thesis
  proof cases
    case 1
    then have "drop j ([62, 62, 62] @ trailer @ raquo # X) = 62 # 62 # trailer @ raquo # X"
      by simp
    then show ?thesis unfolding d using hd_ne special_chars
      by (cases trailer) (simp_all add: match_arrows_Cons startswith_def arrows_facts)
  next
    case 2
    then have "drop j ([62, 62, 62] @ trailer @ raquo # X) = 62 # trailer @ raquo # X"
      by (simp add: numeral_2_eq_2)
    then show ?thesis unfolding d using hd_ne special_chars
      by (cases trailer) (simp_all add: match_arrows_Cons startswith_def arrows_facts)
  next
    case 3
    define Y where "Y = trailer @ raquo # X"
    from 3 have "drop j ([62, 62, 62] @ Y) = drop (j - 3) Y"
      by (simp add: drop_Cons' numeral_3_eq_3)
    then have "drop j ([62, 62, 62] @ trailer @ raquo # X)
                 = drop (j - 3) (trailer @ raquo # X)" by (simp only: Y_def)
    moreover have "j - 3 \<le> length trailer" using j(2) 3 by simp
    ultimately show ?thesis unfolding d
      using no_arrows_drop [of trailer raquo "j - 3" X] assms(2) special_chars by simp
  qed
qed


lemma match_arrows_at_arrows: "match_arrows (u ''>>>'' @ y) = Some 3"
  using special_chars by (simp add: arrows_facts match_arrows_Cons startswith_def)

lemma match_arrows_close_None: "match_arrows r = None \<Longrightarrow> match_arrows_close r = None"
  by (simp add: match_arrows_close_def)

lemma match_arrows_close_at_arrows:
  "raquo \<notin> set trailer \<Longrightarrow>
     match_arrows_close (u ''>>>'' @ trailer @ raquo # X) = Some (3 + length trailer + 1)"
proof -
  assume a: "raquo \<notin> set trailer"
  have "takeWhile (\<lambda>c. c \<noteq> raquo) (trailer @ raquo # X) = trailer"
    using a by (induction trailer) auto
  then show ?thesis
    using match_arrows_at_arrows [of "trailer @ raquo # X"]
    by (simp add: match_arrows_close_def arrows_facts)
qed

lemma backtrack_token:
  assumes "name \<noteq> []" "rsaquo \<notin> set name" "raquo \<notin> set name"
    and "raquo \<notin> set trailer" "62 \<notin> set trailer"
    and "rest (u ''>>>'' @ trailer @ raquo # X) = Some n"
    and "\<And>r. match_arrows r = None \<Longrightarrow> rest r = None"
  shows "backtrack_group rest (name @ u ''>>>'' @ trailer @ raquo # X)
           (length (takeWhile (\<lambda>c. c \<noteq> rsaquo \<and> c \<noteq> raquo)
              (name @ u ''>>>'' @ trailer @ raquo # X)))
         = Some (length name, n)"
proof (rule backtrack_found)
  let ?r = "name @ u ''>>>'' @ trailer @ raquo # X"
  let ?G = "length (takeWhile (\<lambda>c. c \<noteq> rsaquo \<and> c \<noteq> raquo) ?r)"
  show "1 \<le> length name" using assms(1) by (cases name) simp_all
  show "length name \<le> ?G" using run_length_token(1) [OF assms(2,3), of trailer X] by simp
  show "rest (drop (length name) ?r) = Some n" using assms(6) by simp
  show "\<forall>k. length name < k \<and> k \<le> ?G \<longrightarrow> rest (drop k ?r) = None"
  proof (intro allI impI)
    fix k assume k: "length name < k \<and> k \<le> ?G"
    with run_length_token(2) [OF assms(2,3), of trailer X]
    have "k \<le> length name + 3 + length trailer" by simp
    with k after_name_no_match [OF assms(4,5), of name k X]
    show "rest (drop k ?r) = None" using assms(7) by simp
  qed
qed

lemma match_at_token_close:
  assumes "well_formed (Ref name trailer)"
  shows "match_at match_arrows_close (token name trailer @ X)
           = Some (name, length (token name trailer))"
proof -
  from assms have wf: "name \<noteq> []" "rsaquo \<notin> set name" "raquo \<notin> set name"
    "raquo \<notin> set trailer" "62 \<notin> set trailer" by simp_all
  have s: "startswith (token name trailer @ X) marker"
    by (simp add: token_def startswith_def)
  have d: "drop (length marker) (token name trailer @ X)
             = name @ u ''>>>'' @ trailer @ raquo # X"
    by (simp add: token_def)
  have b: "backtrack_group match_arrows_close (name @ u ''>>>'' @ trailer @ raquo # X)
           (length (takeWhile (\<lambda>c. c \<noteq> rsaquo \<and> c \<noteq> raquo)
              (name @ u ''>>>'' @ trailer @ raquo # X)))
         = Some (length name, 3 + length trailer + 1)"
    using wf by (intro backtrack_token match_arrows_close_at_arrows match_arrows_close_None)
  show ?thesis
    unfolding match_at_def Let_def d using s b by (simp add: token_def arrows_facts)
qed

lemma match_at_token_open:
  assumes "well_formed (Ref name trailer)"
  shows "match_at match_arrows (token name trailer @ X)
           = Some (name, length marker + length name + 3)"
proof -
  from assms have wf: "name \<noteq> []" "rsaquo \<notin> set name" "raquo \<notin> set name"
    "raquo \<notin> set trailer" "62 \<notin> set trailer" by simp_all
  have s: "startswith (token name trailer @ X) marker"
    by (simp add: token_def startswith_def)
  have d: "drop (length marker) (token name trailer @ X)
             = name @ u ''>>>'' @ trailer @ raquo # X"
    by (simp add: token_def)
  have m: "match_arrows (u ''>>>'' @ trailer @ raquo # X) = Some 3"
    by (rule match_arrows_at_arrows)
  have b: "backtrack_group match_arrows (name @ u ''>>>'' @ trailer @ raquo # X)
           (length (takeWhile (\<lambda>c. c \<noteq> rsaquo \<and> c \<noteq> raquo)
              (name @ u ''>>>'' @ trailer @ raquo # X)))
         = Some (length name, 3)"
    using wf m by (intro backtrack_token) auto
  show ?thesis
    unfolding match_at_def Let_def d using s b by simp
qed


lemma match_at_no_gt:
  assumes "62 \<notin> set y"
  shows "match_at match_arrows (y @ raquo # X) = None"
proof (cases "startswith (y @ raquo # X) marker")
  case False
  then show ?thesis by (simp add: match_at_def)
next
  case True
  have len: "length marker \<le> length y"
  proof (rule ccontr)
    assume "\<not> length marker \<le> length y"
    then have l: "length y < length marker" by simp
    from True have "take (length marker) (y @ raquo # X) = marker"
      by (simp add: startswith_def)
    then have "marker ! length y = (take (length marker) (y @ raquo # X)) ! length y" by simp
    also have "\<dots> = raquo" using l by (simp add: nth_append)
    finally have "raquo \<in> set marker" using l by (metis nth_mem)
    with marker_facts(3) show False by simp
  qed
  define y' where "y' = drop (length marker) y"
  have d: "drop (length marker) (y @ raquo # X) = y' @ raquo # X"
    using len by (simp add: y'_def)
  have ny: "62 \<notin> set y'" using assms by (auto simp add: y'_def dest: in_set_dropD)
  have g: "length (takeWhile (\<lambda>c. c \<noteq> rsaquo \<and> c \<noteq> raquo) (y' @ raquo # X)) \<le> length y'"
    by (rule takeWhile_stop_length) simp
  have "backtrack_group match_arrows (y' @ raquo # X)
          (length (takeWhile (\<lambda>c. c \<noteq> rsaquo \<and> c \<noteq> raquo) (y' @ raquo # X))) = None"
  proof (rule backtrack_none, intro allI impI)
    fix k
    assume "1 \<le> k \<and> k \<le> length (takeWhile (\<lambda>c. c \<noteq> rsaquo \<and> c \<noteq> raquo) (y' @ raquo # X))"
    with g have "k \<le> length y'" by simp
    then show "match_arrows (drop k (y' @ raquo # X)) = None"
      using no_arrows_drop [OF ny, of raquo k X] special_chars by simp
  qed
  then show ?thesis
    unfolding match_at_def Let_def d by simp
qed

lemma findall_trailer:
  "62 \<notin> set tr \<Longrightarrow>
     findall (match_at match_arrows) (tr @ raquo # X) = findall (match_at match_arrows) X"
proof (induction tr)
  case Nil
  then show ?case using special_chars by (simp add: match_at_not_laquo)
next
  case (Cons a tr)
  have "match_at match_arrows ((a # tr) @ raquo # X) = None"
    using Cons.prems by (rule match_at_no_gt)
  with Cons show ?case by simp
qed

lemma findall_match:
  assumes "s \<noteq> []" "m s = Some (g, Suc l)"
  shows "findall m s = g # findall m (drop (Suc l) s)"
  using assms by (cases s) simp_all

lemma sub_match:
  assumes "s \<noteq> []" "m s = Some (g, Suc l)"
  shows "sub m repl s = repl g @ sub m repl (drop (Suc l) s)"
  using assms by (cases s) simp_all

lemma token_nonempty: "token name trailer \<noteq> []" "0 < length (token name trailer)"
  by (simp_all add: token_def)

lemma findall_render:
  "list_all well_formed ps \<Longrightarrow> findall (match_at match_arrows) (render ps) = names ps"
proof (induction ps)
  case Nil
  then show ?case by simp
next
  case (Cons p ps)
  show ?case
  proof (cases p)
    case (Text t)
    with Cons show ?thesis by (simp add: findall_text)
  next
    case (Ref name trailer)
    with Cons.prems have wf: "well_formed (Ref name trailer)" by simp
    then have w: "62 \<notin> set trailer" by simp
    let ?X = "render ps"
    have l: "length marker + length name + 3 = Suc (length marker + length name + 2)" by simp
    have m: "match_at match_arrows (token name trailer @ ?X)
               = Some (name, Suc (length marker + length name + 2))"
      using match_at_token_open [OF wf, of ?X] by (simp only: l)
    have "findall (match_at match_arrows) (token name trailer @ ?X)
            = name # findall (match_at match_arrows)
                       (drop (Suc (length marker + length name + 2)) (token name trailer @ ?X))"
      by (rule findall_match [of "token name trailer @ render ps" "match_at match_arrows",
            OF _ m]) (simp add: token_nonempty)
    also have "drop (Suc (length marker + length name + 2)) (token name trailer @ ?X)
                 = trailer @ raquo # ?X"
      by (simp add: token_def arrows_facts)
    also have "findall (match_at match_arrows) (trailer @ raquo # ?X)
                 = findall (match_at match_arrows) ?X"
      using w by (rule findall_trailer)
    finally show ?thesis using Cons Ref by simp
  qed
qed

lemma sub_render:
  "list_all well_formed ps \<Longrightarrow>
     sub (match_at match_arrows_close) repl (render ps) = rewritten repl ps"
proof (induction ps)
  case Nil
  then show ?case by simp
next
  case (Cons p ps)
  show ?case
  proof (cases p)
    case (Text t)
    with Cons show ?thesis by (simp add: sub_text)
  next
    case (Ref name trailer)
    with Cons.prems have wf: "well_formed (Ref name trailer)" by simp
    let ?X = "render ps"
    obtain l where l: "length (token name trailer) = Suc l"
      using token_nonempty(2) [of name trailer] by (cases "length (token name trailer)") auto
    have m: "match_at match_arrows_close (token name trailer @ ?X) = Some (name, Suc l)"
      using match_at_token_close [OF wf, of ?X] by (simp only: l)
    have "sub (match_at match_arrows_close) repl (token name trailer @ ?X)
            = repl name @ sub (match_at match_arrows_close) repl
                            (drop (Suc l) (token name trailer @ ?X))"
      by (rule sub_match [of "token name trailer @ render ps" "match_at match_arrows_close",
            OF _ m]) (simp add: token_nonempty)
    also have "drop (Suc l) (token name trailer @ ?X) = ?X"
      using l by simp
    finally show ?thesis using Cons Ref by simp
  qed
qed

end
